theory Spec2Isabelle
  imports Complex_Main
begin

section \<open>Configuration model (scenario\_schema.py)\<close>

datatype ManeuverType = STRAIGHT | LEFT_TURN | RIGHT_TURN



section \<open>Simulator geometry and the waypoint graph (external interface)\<close>

text \<open>
  Floating-point numbers are modelled as reals. A \<open>carla.Location\<close> (and a
  \<open>carla.Vector3D\<close>) is a triple of coordinates, a \<open>carla.Transform\<close> a location
  with a rotation.
\<close>

record Location =
  loc_x :: real
  loc_y :: real
  loc_z :: real

record Rotation =
  pitch :: real
  yaw :: real
  roll :: real

record Transform =
  location :: Location
  rotation :: Rotation

text \<open>
  Waypoints and junctions are opaque handles of the simulator. What the simulator
  answers about them is a parameter of the model: the record below collects the
  queries of \<open>carla.Map\<close>, \<open>carla.World\<close>, \<open>carla.Waypoint\<close> and
  \<open>carla.Junction\<close> that the locator makes.
\<close>

type_synonym waypoint = nat
type_synonym junction_id = nat

record carla_map =
  get_spawn_points :: "Transform list"
  generate_waypoints :: "waypoint list"
  get_waypoint :: "Location \<Rightarrow> waypoint"
  wp_transform :: "waypoint \<Rightarrow> Transform"
  is_junction :: "waypoint \<Rightarrow> bool"
  get_junction :: "waypoint \<Rightarrow> junction_id option"
  wp_next :: "waypoint \<Rightarrow> real \<Rightarrow> waypoint list"
  wp_previous :: "waypoint \<Rightarrow> real \<Rightarrow> waypoint list"
  junction_get_waypoints :: "junction_id \<Rightarrow> (waypoint \<times> waypoint) list"
  get_traffic_lights_in_junction :: "junction_id \<Rightarrow> nat list"
  get_forward_vector :: "Transform \<Rightarrow> Location"

datatype py_error = IndexError | RuntimeError

section \<open>Junction/maneuver locator (scenario\_runner.py)\<close>

text \<open>
  Python's \<open>%\<close> on floats with a positive modulus: the result has the sign of the
  modulus, \<open>x - m * floor (x / m)\<close>.
\<close>

definition py_mod :: "real \<Rightarrow> real \<Rightarrow> real" where
  "py_mod x m = x - m * of_int \<lfloor>x / m\<rfloor>"

text \<open>\<open>angle_diff = (exit_yaw - entry_yaw + 180) % 360 - 180\<close>\<close>

definition angle_diff :: "real \<Rightarrow> real \<Rightarrow> real" where
  "angle_diff entry_yaw exit_yaw = py_mod (exit_yaw - entry_yaw + 180) 360 - 180"

text \<open>The \<open>if\<close>/\<open>elif\<close> chain that sets \<open>is_match\<close>.\<close>

definition is_match :: "ManeuverType \<Rightarrow> real \<Rightarrow> bool" where
  "is_match mt a =
     (if mt = STRAIGHT \<and> \<bar>a\<bar> < 30 then True
      else if mt = LEFT_TURN \<and> -120 < a \<and> a < -60 then True
      else if mt = RIGHT_TURN \<and> 60 < a \<and> a < 120 then True
      else False)"

text \<open>\<open>spawn_transform.location.z += 0.5\<close>\<close>

definition lift_z :: "Transform \<Rightarrow> Transform" where
  "lift_z t = t\<lparr>location := (location t)\<lparr>loc_z := loc_z (location t) + 0.5\<rparr>\<rparr>"

text \<open>
  The loop over the junction's (entry, exit) pairs in
  \<open>_find_maneuver_spawn_at_intersection\<close>. A pair that matches but has no
  predecessor 40 units back, or no successor 30 units on, is passed over and the loop
  goes on. \<open>None\<close> stands for the pair \<open>(None, None)\<close>.
\<close>

fun scan_junction_wps ::
  "carla_map \<Rightarrow> ManeuverType \<Rightarrow> (waypoint \<times> waypoint) list \<Rightarrow> (Transform \<times> Location) option"
where
  "scan_junction_wps m mt [] = None"
| "scan_junction_wps m mt ((entry_wp, exit_wp) # rest) =
     (let entry_yaw = yaw (rotation (wp_transform m entry_wp));
          exit_yaw = yaw (rotation (wp_transform m exit_wp))
      in if is_match mt (angle_diff entry_yaw exit_yaw) then
           (case wp_previous m entry_wp 40 of
              [] \<Rightarrow> scan_junction_wps m mt rest
            | spawn_wp # _ \<Rightarrow>
                (case wp_next m exit_wp 30 of
                   [] \<Rightarrow> scan_junction_wps m mt rest
                 | dest_wp # _ \<Rightarrow>
                     Some (lift_z (wp_transform m spawn_wp),
                           location (wp_transform m dest_wp))))
         else scan_junction_wps m mt rest)"










section \<open>Behavior injector (scenario\_runner.py)\<close>

text \<open>
  The pseudo-random generator is a stream of draws with a read position.
  \<open>random.random()\<close> returns the next draw, a float of the interval from 0
  (included) to 1 (excluded); \<open>random.uniform(a, b)\<close> is \<open>a + (b - a) * random()\<close>.
\<close>

type_synonym rng = "(nat \<Rightarrow> real) \<times> nat"

definition random_random :: "rng \<Rightarrow> real \<times> rng" where
  "random_random g = (fst g (snd g), (fst g, Suc (snd g)))"

definition random_uniform :: "real \<Rightarrow> real \<Rightarrow> rng \<Rightarrow> real \<times> rng" where
  "random_uniform a b g = (case random_random g of (u, g') \<Rightarrow> (a + (b - a) * u, g'))"

text \<open>The draws of a generator all lie in the interval that \<open>random.random()\<close> promises.\<close>

definition unit_draws :: "rng \<Rightarrow> bool" where
  "unit_draws g \<longleftrightarrow> (\<forall>n. 0 \<le> fst g n \<and> fst g n < 1)"

record VehicleBehaviors =
  run_red_light :: real
  ignore_stop_sign :: real
  sudden_lane_change :: real
  ignore_right_of_way :: real
  sudden_brake :: real
  tailgate :: real

record PedestrianBehaviors =
  jaywalk :: real
  ignore_signal :: real
  sudden_crossing :: real
  stop_in_road :: real

text \<open>
  \<open>VehicleTrafficConfig\<close> and \<open>PedestrianTrafficConfig\<close> have the same shape; the
  injector reads the two fields below.
\<close>

record 'b TrafficConfig =
  rule_break_probability :: real
  behaviors :: 'b

type_synonym actor = nat

text \<open>The parameter setters of the traffic manager, as the commands it receives.\<close>

datatype tm_command =
    Ignore_lights_percentage actor real
  | Ignore_signs_percentage actor real
  | Random_left_lanechange_percentage actor real
  | Random_right_lanechange_percentage actor real
  | Ignore_vehicles_percentage actor real
  | Distance_to_leading_vehicle actor real
  | Vehicle_percentage_speed_difference actor real

text \<open>
  \<open>_apply_vehicle_behavior\<close> returns the commands sent to the traffic manager, in
  order, and the generator after its draws. The early \<open>return\<close> of a rule-abiding
  vehicle comes before everything else, the speed variation included.
\<close>

definition apply_vehicle_behavior ::
  "actor \<Rightarrow> VehicleBehaviors TrafficConfig \<Rightarrow> rng \<Rightarrow> tm_command list \<times> rng"
where
  "apply_vehicle_behavior vehicle config g =
     (let rule_break_prob = rule_break_probability config;
          bs = behaviors config;
          (u0, g0) = random_random g
      in if u0 > rule_break_prob then ([], g0)
         else
           (let (u1, g1) = random_random g0;
                c1 = (if u1 < run_red_light bs
                      then [Ignore_lights_percentage vehicle 100] else []);
                (u2, g2) = random_random g1;
                c2 = (if u2 < ignore_stop_sign bs
                      then [Ignore_signs_percentage vehicle 100] else []);
                (u3, g3) = random_random g2;
                c3 = (if u3 < sudden_lane_change bs
                      then [Random_left_lanechange_percentage vehicle 50,
                            Random_right_lanechange_percentage vehicle 50] else []);
                (u4, g4) = random_random g3;
                c4 = (if u4 < ignore_right_of_way bs
                      then [Ignore_vehicles_percentage vehicle 50] else []);
                (u5, g5) = random_random g4;
                c5 = (if u5 < tailgate bs
                      then [Distance_to_leading_vehicle vehicle 1] else []);
                (speed_diff, g6) = random_uniform (-20) 30 g5
            in (c1 @ c2 @ c3 @ c4 @ c5 @ [Vehicle_percentage_speed_difference vehicle speed_diff],
                g6)))"

text \<open>The calls that reach a pedestrian's AI controller.\<close>

datatype controller_command = Set_max_speed real | Go_to_location Location

text \<open>
  \<open>_apply_pedestrian_behavior\<close>. \<open>ego_loc\<close> is the location of the ego vehicle, or
  \<open>None\<close> when the runner has no ego vehicle. The branch for \<open>ignore_signal\<close> draws
  and then does nothing (\<open>pass\<close>); \<open>stop_in_road\<close> is never read.
\<close>

definition apply_pedestrian_behavior ::
  "PedestrianBehaviors TrafficConfig \<Rightarrow> Location option \<Rightarrow> rng \<Rightarrow> controller_command list \<times> rng"
where
  "apply_pedestrian_behavior config ego_loc g =
     (let rule_break_prob = rule_break_probability config;
          bs = behaviors config;
          (u0, g0) = random_random g
      in if u0 > rule_break_prob then ([], g0)
         else
           (let (u1, g1) = random_random g0;
                (c1, g2) = (if u1 < jaywalk bs
                            then (case random_uniform 1.5 3.0 g1 of
                                    (s, g') \<Rightarrow> ([Set_max_speed s], g'))
                            else ([], g1));
                (u3, g3) = random_random g2;
                (u4, g4) = random_random g3;
                (c4, g5) = (if u4 < sudden_crossing bs
                            then (case ego_loc of
                                    None \<Rightarrow> ([], g4)
                                  | Some ego \<Rightarrow>
                                      (case random_uniform (-10) 10 g4 of
                                         (ox, g') \<Rightarrow>
                                           (case random_uniform (-10) 10 g' of
                                              (oy, g'') \<Rightarrow>
                                                ([Go_to_location
                                                    \<lparr>loc_x = loc_x ego + ox,
                                                     loc_y = loc_y ego + oy,
                                                     loc_z = loc_z ego\<rparr>], g''))))
                            else ([], g4))
            in (c1 @ c4, g5)))"

section \<open>Scenario session cleanup (scenario\_runner.py)\<close>

text \<open>
  The simulator keeps the set of live actors; the calls it receives are logged in
  order. \<open>destroy\<close> and \<open>stop\<close> on an actor that is no longer alive are reported as
  an error, so that a result without error shows that no such call was made.
\<close>

datatype sim_call = Destroy actor | Stop actor

record sim =
  alive :: "actor set"
  calls :: "sim_call list"

definition actor_destroy :: "actor \<Rightarrow> sim \<Rightarrow> py_error + sim" where
  "actor_destroy a w =
     (if a \<in> alive w then Inr (w\<lparr>alive := alive w - {a}, calls := calls w @ [Destroy a]\<rparr>)
      else Inl RuntimeError)"

definition controller_stop :: "actor \<Rightarrow> sim \<Rightarrow> py_error + sim" where
  "controller_stop a w =
     (if a \<in> alive w then Inr (w\<lparr>calls := calls w @ [Stop a]\<rparr>) else Inl RuntimeError)"

text \<open>The actors that a \<open>ScenarioRunner\<close> owns.\<close>

record runner_actors =
  sensors :: "actor list"
  pedestrian_controllers :: "actor list"
  pedestrians :: "actor list"
  vehicles :: "actor list"
  ego_vehicle :: "actor option"

text \<open>\<open>for a in actors: if a.is_alive: a.destroy()\<close>\<close>

fun destroy_each :: "actor list \<Rightarrow> sim \<Rightarrow> py_error + sim" where
  "destroy_each [] w = Inr w"
| "destroy_each (a # as) w =
     (if a \<in> alive w then
        (case actor_destroy a w of Inl e \<Rightarrow> Inl e | Inr w' \<Rightarrow> destroy_each as w')
      else destroy_each as w)"

text \<open>\<open>for c in controllers: if c.is_alive: c.stop(); c.destroy()\<close>\<close>

fun stop_and_destroy_each :: "actor list \<Rightarrow> sim \<Rightarrow> py_error + sim" where
  "stop_and_destroy_each [] w = Inr w"
| "stop_and_destroy_each (c # cs) w =
     (if c \<in> alive w then
        (case controller_stop c w of
           Inl e \<Rightarrow> Inl e
         | Inr w' \<Rightarrow>
             (case actor_destroy c w' of
                Inl e \<Rightarrow> Inl e
              | Inr w'' \<Rightarrow> stop_and_destroy_each cs w''))
      else stop_and_destroy_each cs w)"

text \<open>\<open>if self.ego_vehicle and self.ego_vehicle.is_alive: self.ego_vehicle.destroy()\<close>\<close>

definition destroy_ego :: "actor option \<Rightarrow> sim \<Rightarrow> py_error + sim" where
  "destroy_ego ego_opt w =
     (case ego_opt of
        None \<Rightarrow> Inr w
      | Some ego \<Rightarrow> if ego \<in> alive w then actor_destroy ego w else Inr w)"

text \<open>
  \<open>cleanup\<close> returns the runner's actor lists and the simulator after the calls; an
  exception of a simulator call would leave the method at once.
\<close>

definition cleanup :: "runner_actors \<Rightarrow> sim \<Rightarrow> py_error + (runner_actors \<times> sim)" where
  "cleanup r w =
     (case destroy_each (sensors r) w of
        Inl e \<Rightarrow> Inl e
      | Inr w1 \<Rightarrow>
     (let r1 = r\<lparr>sensors := []\<rparr> in
      case stop_and_destroy_each (pedestrian_controllers r1) w1 of
        Inl e \<Rightarrow> Inl e
      | Inr w2 \<Rightarrow>
     (let r2 = r1\<lparr>pedestrian_controllers := []\<rparr> in
      case destroy_each (pedestrians r2) w2 of
        Inl e \<Rightarrow> Inl e
      | Inr w3 \<Rightarrow>
     (let r3 = r2\<lparr>pedestrians := []\<rparr> in
      case destroy_each (vehicles r3) w3 of
        Inl e \<Rightarrow> Inl e
      | Inr w4 \<Rightarrow>
     (let r4 = r3\<lparr>vehicles := []\<rparr> in
      case destroy_ego (ego_vehicle r4) w4 of
        Inl e \<Rightarrow> Inl e
      | Inr w5 \<Rightarrow> Inr (r4\<lparr>ego_vehicle := None\<rparr>, w5))))))"

text \<open>
  The runner after a cleanup, the calls that stop and destroy a list of controllers, and
  the actors that a runner holds.
\<close>

definition no_actors :: runner_actors where
  "no_actors =
     \<lparr>sensors = [], pedestrian_controllers = [], pedestrians = [], vehicles = [],
      ego_vehicle = None\<rparr>"

definition stop_destroy_calls :: "actor list \<Rightarrow> sim_call list" where
  "stop_destroy_calls cs = concat (map (\<lambda>c. [Stop c, Destroy c]) cs)"

definition owned_actors :: "runner_actors \<Rightarrow> actor set" where
  "owned_actors r =
     set (sensors r) \<union> set (pedestrian_controllers r) \<union> set (pedestrians r) \<union>
     set (vehicles r) \<union> set_option (ego_vehicle r)"

section \<open>Metrics aggregator and evaluation loop (tcp\_evaluator.py)\<close>

text \<open>
  \<open>min_speed\<close> starts at \<open>float('inf')\<close>, so its type has the reals and positive
  infinity. \<open>py_min_inf a b\<close> is Python's \<open>min(a, b)\<close> for such an \<open>a\<close> and a real \<open>b\<close>.
\<close>

datatype xreal = Fin real | PInf

fun py_min_inf :: "xreal \<Rightarrow> real \<Rightarrow> xreal" where
  "py_min_inf PInf b = Fin b"
| "py_min_inf (Fin a) b = Fin (min a b)"

text \<open>
  \<open>EvaluationMetrics\<close> with the defaults of the dataclass. The two name strings
  (\<open>scenario_name\<close>, \<open>maneuver_type\<close>) are not part of the computation and are left out.
\<close>

record EvaluationMetrics =
  completed :: bool
  completion_time :: real
  timeout_reached :: bool
  stuck :: bool
  distance_traveled :: real
  distance_to_destination :: real
  average_speed :: real
  max_speed :: real
  min_speed :: xreal
  num_collisions :: nat
  collision_types :: "string list"
  red_lights_run :: int
  lane_invasions :: nat
  max_acceleration :: real
  max_deceleration :: real
  max_lateral_acceleration :: real
  comfort_score :: real
  route_deviation :: real

definition default_metrics :: EvaluationMetrics where
  "default_metrics =
     \<lparr>completed = False, completion_time = 0, timeout_reached = False, stuck = False,
      distance_traveled = 0, distance_to_destination = 0,
      average_speed = 0, max_speed = 0, min_speed = PInf,
      num_collisions = 0, collision_types = [], red_lights_run = 0, lane_invasions = 0,
      max_acceleration = 0, max_deceleration = 0, max_lateral_acceleration = 0,
      comfort_score = 0, route_deviation = 0\<rparr>"

record EvaluationConfig =
  timeout :: real
  stuck_timeout :: real
  stuck_speed_threshold :: real

text \<open>The state of a \<open>TCPEvaluator\<close> that the loop reads and writes, as \<open>__init__\<close> sets it.\<close>

record evaluator =
  metrics :: EvaluationMetrics
  start_time :: real
  start_location :: "Location option"
  last_location :: "Location option"
  last_velocity :: "Location option"
  last_time :: real
  speed_history :: "real list"
  acceleration_history :: "real list"
  stuck_start_time :: "real option"

definition new_evaluator :: evaluator where
  "new_evaluator =
     \<lparr>metrics = default_metrics, start_time = 0, start_location = None,
      last_location = None, last_velocity = None, last_time = 0,
      speed_history = [], acceleration_history = [], stuck_start_time = None\<rparr>"

text \<open>What one call of \<open>update_metrics\<close> reads from the ego vehicle.\<close>

record ego_state =
  ego_location :: Location
  ego_velocity :: Location
  ego_forward :: Location

text \<open>The event logs of the runner that finalization copies from.\<close>

record runner_events =
  runner_collisions :: "string list"
  runner_lane_invasions :: "nat list"
  runner_red_lights_run :: int

definition distance :: "Location \<Rightarrow> Location \<Rightarrow> real" where
  "distance a b = sqrt ((loc_x a - loc_x b)\<^sup>2 + (loc_y a - loc_y b)\<^sup>2 + (loc_z a - loc_z b)\<^sup>2)"

definition speed_of :: "Location \<Rightarrow> real" where
  "speed_of v = sqrt ((loc_x v)\<^sup>2 + (loc_y v)\<^sup>2 + (loc_z v)\<^sup>2)"

text \<open>
  \<open>np.mean\<close> and \<open>np.var\<close> (population variance). On an empty sample numpy has no
  number to return (it answers \<open>nan\<close>): \<open>None\<close>.
\<close>

definition np_mean :: "real list \<Rightarrow> real option" where
  "np_mean xs = (if xs = [] then None else Some (sum_list xs / real (length xs)))"

definition np_var :: "real list \<Rightarrow> real option" where
  "np_var xs =
     (case np_mean xs of
        None \<Rightarrow> None
      | Some mu \<Rightarrow> np_mean (map (\<lambda>x. (x - mu)\<^sup>2) xs))"

text \<open>The stuck-detection block of \<open>update_metrics\<close>.\<close>

definition stuck_detection :: "EvaluationConfig \<Rightarrow> real \<Rightarrow> real \<Rightarrow> evaluator \<Rightarrow> evaluator" where
  "stuck_detection cfg speed current_time ev =
     (if speed < stuck_speed_threshold cfg then
        (case stuck_start_time ev of
           None \<Rightarrow> ev\<lparr>stuck_start_time := Some current_time\<rparr>
         | Some t0 \<Rightarrow>
             if current_time - t0 > stuck_timeout cfg
             then ev\<lparr>metrics := (metrics ev)\<lparr>stuck := True\<rparr>\<rparr>
             else ev)
      else ev\<lparr>stuck_start_time := None\<rparr>)"

text \<open>The acceleration block of \<open>update_metrics\<close>.\<close>

definition acceleration_update :: "ego_state \<Rightarrow> real \<Rightarrow> evaluator \<Rightarrow> evaluator" where
  "acceleration_update ego current_time ev =
     (case last_velocity ev of
        None \<Rightarrow> ev
      | Some lv \<Rightarrow>
          if last_time ev > 0 then
            (let dt = current_time - last_time ev
             in if dt > 0 then
                  (let velocity = ego_velocity ego;
                       accel_x = (loc_x velocity - loc_x lv) / dt;
                       accel_y = (loc_y velocity - loc_y lv) / dt;
                       accel = sqrt (accel_x\<^sup>2 + accel_y\<^sup>2);
                       ev1 = ev\<lparr>acceleration_history := acceleration_history ev @ [accel]\<rparr>;
                       forward = ego_forward ego;
                       long_accel = accel_x * loc_x forward + accel_y * loc_y forward
                   in if long_accel > 0
                      then ev1\<lparr>metrics := (metrics ev1)
                                 \<lparr>max_acceleration := max (max_acceleration (metrics ev1)) long_accel\<rparr>\<rparr>
                      else ev1\<lparr>metrics := (metrics ev1)
                                 \<lparr>max_deceleration := max (max_deceleration (metrics ev1)) \<bar>long_accel\<bar>\<rparr>\<rparr>)
                else ev)
          else ev)"

text \<open>
  \<open>update_metrics\<close>. \<open>destination\<close> is the destination of the runner, \<open>None\<close> when it
  has none.
\<close>

definition update_metrics ::
  "EvaluationConfig \<Rightarrow> Location option \<Rightarrow> ego_state \<Rightarrow> real \<Rightarrow> evaluator \<Rightarrow> evaluator"
where
  "update_metrics cfg destination ego current_time ev =
     (let loc = ego_location ego;
          velocity = ego_velocity ego;
          speed = speed_of velocity;
          ev1 = ev\<lparr>speed_history := speed_history ev @ [speed],
                   metrics := (metrics ev)
                     \<lparr>max_speed := max (max_speed (metrics ev)) speed,
                      min_speed := py_min_inf (min_speed (metrics ev)) speed\<rparr>\<rparr>;
          ev2 = (case last_location ev1 of
                   None \<Rightarrow> ev1
                 | Some l \<Rightarrow>
                     ev1\<lparr>metrics := (metrics ev1)
                           \<lparr>distance_traveled :=
                              distance_traveled (metrics ev1) + distance loc l\<rparr>\<rparr>);
          ev3 = acceleration_update ego current_time ev2;
          ev4 = (case destination of
                   None \<Rightarrow> ev3
                 | Some d \<Rightarrow>
                     ev3\<lparr>metrics := (metrics ev3)\<lparr>distance_to_destination := distance loc d\<rparr>\<rparr>);
          ev5 = stuck_detection cfg speed current_time ev4
      in ev5\<lparr>last_location := Some loc, last_velocity := Some velocity,
              last_time := current_time\<rparr>)"

text \<open>\<open>check_completion\<close>, for a runner that has an ego vehicle at \<open>ego_loc\<close>.\<close>

definition check_completion :: "Location option \<Rightarrow> Location \<Rightarrow> bool" where
  "check_completion destination ego_loc =
     (case destination of None \<Rightarrow> False | Some dest \<Rightarrow> distance ego_loc dest < 5)"

text \<open>
  \<open>finalize_metrics\<close>. Both statistics are computed only when their history is not
  empty, so the \<open>None\<close> branches below are never taken.
\<close>

definition finalize_metrics :: "runner_events \<Rightarrow> real \<Rightarrow> evaluator \<Rightarrow> evaluator" where
  "finalize_metrics events elapsed_time ev =
     (let m0 = (metrics ev)\<lparr>completion_time := elapsed_time\<rparr>;
          m1 = (if speed_history ev \<noteq> [] then
                  (case np_mean (speed_history ev) of
                     Some mu \<Rightarrow> m0\<lparr>average_speed := mu\<rparr>
                   | None \<Rightarrow> m0)
                else m0);
          m2 = (if acceleration_history ev \<noteq> [] then
                  (case np_var (acceleration_history ev) of
                     Some accel_variance \<Rightarrow>
                       m1\<lparr>comfort_score := max 0 (100 - accel_variance * 10)\<rparr>
                   | None \<Rightarrow> m1)
                else m1)
      in ev\<lparr>metrics := m2
             \<lparr>num_collisions := length (runner_collisions events),
              collision_types := runner_collisions events,
              lane_invasions := length (runner_lane_invasions events),
              red_lights_run := runner_red_lights_run events\<rparr>\<rparr>)"

text \<open>
  One iteration of the loop of \<open>run_evaluation\<close> reads the clock and the ego vehicle.
  An exception may cut it short: \<open>raised_before\<close> is one raised before
  \<open>update_metrics\<close> ran in this iteration, \<open>raised_after\<close> one raised after it (by
  the world tick, for instance). The camera placeholder returns no image, so no control
  is ever applied and that branch has no effect on the state.
\<close>

datatype signal = KeyboardInterrupt | Other_exception

record tick =
  clock :: real
  raised_before :: "signal option"
  ego_at_check :: Location
  ego_at_update :: ego_state
  raised_after :: "signal option"

datatype loop_exit = Broke evaluator | Raised signal evaluator | Unfinished evaluator

fun evaluation_loop ::
  "EvaluationConfig \<Rightarrow> Location option \<Rightarrow> evaluator \<Rightarrow> tick list \<Rightarrow> loop_exit"
where
  "evaluation_loop cfg destination ev [] = Unfinished ev"
| "evaluation_loop cfg destination ev (t # ts) =
     (case raised_before t of
        Some sg \<Rightarrow> Raised sg ev
      | None \<Rightarrow>
          (let elapsed = clock t - start_time ev
           in if elapsed > timeout cfg
              then Broke (ev\<lparr>metrics := (metrics ev)\<lparr>timeout_reached := True\<rparr>\<rparr>)
              else if stuck (metrics ev) then Broke ev
              else if check_completion destination (ego_at_check t)
              then Broke (ev\<lparr>metrics := (metrics ev)\<lparr>completed := True\<rparr>\<rparr>)
              else
                (let ev' = update_metrics cfg destination (ego_at_update t) elapsed ev
                 in case raised_after t of
                      Some sg \<Rightarrow> Raised sg ev'
                    | None \<Rightarrow> evaluation_loop cfg destination ev' ts)))"

text \<open>
  One run: what the scenario setup gave, the clock readings and the iterations of the
  loop. A list of iterations that ends while the loop is still running is a run that
  has not returned: \<open>None\<close>.
\<close>

record episode =
  setup_ok :: bool
  ego_spawned :: bool
  runner_destination :: "Location option"
  ego_start :: Location
  start_clock :: real
  ticks :: "tick list"
  end_clock :: real
  events :: runner_events

datatype call = Finalize_metrics | Cleanup

text \<open>
  \<open>run_evaluation\<close> returns the evaluator state whose metrics are handed back, and
  the calls of \<open>finalize_metrics\<close> and of the runner's \<open>cleanup\<close>, in order.
\<close>

definition run_evaluation ::
  "EvaluationConfig \<Rightarrow> evaluator \<Rightarrow> episode \<Rightarrow> (evaluator \<times> call list) option"
where
  "run_evaluation cfg ev ep =
     (if \<not> setup_ok ep
      then Some (ev\<lparr>metrics := (metrics ev)\<lparr>completed := False\<rparr>\<rparr>, [Cleanup])
      else if \<not> ego_spawned ep then Some (ev, [Cleanup])
      else
        (let ev1 = ev\<lparr>start_time := start_clock ep,
                      start_location := Some (ego_start ep),
                      last_location := Some (ego_start ep)\<rparr>
         in case evaluation_loop cfg (runner_destination ep) ev1 (ticks ep) of
              Broke ev2 \<Rightarrow>
                Some (finalize_metrics (events ep) (end_clock ep - start_time ev2) ev2,
                      [Finalize_metrics, Cleanup])
            | Raised KeyboardInterrupt ev2 \<Rightarrow>
                Some (finalize_metrics (events ep) (end_clock ep - start_time ev2) ev2,
                      [Finalize_metrics, Cleanup])
            | Raised Other_exception ev2 \<Rightarrow> Some (ev2, [Cleanup])
            | Unfinished ev2 \<Rightarrow> None))"

text \<open>The calls of \<open>update_metrics\<close> that successive iterations make.\<close>

fun update_metrics_seq ::
  "EvaluationConfig \<Rightarrow> Location option \<Rightarrow> evaluator \<Rightarrow> (ego_state \<times> real) list \<Rightarrow> evaluator"
where
  "update_metrics_seq cfg destination ev [] = ev"
| "update_metrics_seq cfg destination ev ((ego, current_time) # rest) =
     update_metrics_seq cfg destination (update_metrics cfg destination ego current_time ev) rest"

text \<open>
  The evaluator state at the exit of the loop; the sample that an iteration hands to
  \<open>update_metrics\<close>; a sample whose speed is below the stuck threshold.
\<close>

fun exit_state :: "loop_exit \<Rightarrow> evaluator" where
  "exit_state (Broke ev) = ev"
| "exit_state (Raised sg ev) = ev"
| "exit_state (Unfinished ev) = ev"

definition tick_sample :: "evaluator \<Rightarrow> tick \<Rightarrow> ego_state \<times> real" where
  "tick_sample ev t = (ego_at_update t, clock t - start_time ev)"

definition below_threshold :: "EvaluationConfig \<Rightarrow> ego_state \<times> real \<Rightarrow> bool" where
  "below_threshold cfg u \<longleftrightarrow> speed_of (ego_velocity (fst u)) < stuck_speed_threshold cfg"

section \<open>Sample worlds and runs\<close>

text \<open>
  A town with one spawn point and one signalized junction (id 7). The junction has one
  traversal pair, from waypoint 1 to waypoint 2, both heading 0; waypoint 3 lies 40
  units before the entry and waypoint 4 lies 30 units after the exit. The path from
  the spawn point has no further node.
\<close>

definition origin_transform :: Transform where
  "origin_transform =
     \<lparr>location = \<lparr>loc_x = 0, loc_y = 0, loc_z = 0\<rparr>,
      rotation = \<lparr>pitch = 0, yaw = 0, roll = 0\<rparr>\<rparr>"

definition one_junction_town :: carla_map where
  "one_junction_town =
     \<lparr>get_spawn_points = [origin_transform],
      generate_waypoints = [1],
      get_waypoint = (\<lambda>_. 0),
      wp_transform = (\<lambda>w. \<lparr>location = \<lparr>loc_x = 10 * real w, loc_y = 0, loc_z = 0\<rparr>,
                            rotation = \<lparr>pitch = 0, yaw = 0, roll = 0\<rparr>\<rparr>),
      is_junction = (\<lambda>w. w = 1),
      get_junction = (\<lambda>w. if w = 1 then Some 7 else None),
      wp_next = (\<lambda>w d. if w = 2 then [4] else []),
      wp_previous = (\<lambda>w d. if w = 1 then [3] else []),
      junction_get_waypoints = (\<lambda>j. if j = 7 then [(1, 2)] else []),
      get_traffic_lights_in_junction = (\<lambda>j. if j = 7 then [0] else []),
      get_forward_vector = (\<lambda>t. \<lparr>loc_x = 1, loc_y = 0, loc_z = 0\<rparr>)\<rparr>"


text \<open>
  Traffic configurations with rule-break probability \<open>p\<close> and every sub-behavior
  probability \<open>q\<close>, and a generator whose draws are all \<open>u\<close>.
\<close>

definition all_vehicle_behaviors :: "real \<Rightarrow> VehicleBehaviors" where
  "all_vehicle_behaviors q =
     \<lparr>run_red_light = q, ignore_stop_sign = q, sudden_lane_change = q,
      ignore_right_of_way = q, sudden_brake = q, tailgate = q\<rparr>"

definition vehicle_config :: "real \<Rightarrow> real \<Rightarrow> VehicleBehaviors TrafficConfig" where
  "vehicle_config p q = \<lparr>rule_break_probability = p, behaviors = all_vehicle_behaviors q\<rparr>"

definition all_pedestrian_behaviors :: "real \<Rightarrow> PedestrianBehaviors" where
  "all_pedestrian_behaviors q =
     \<lparr>jaywalk = q, ignore_signal = q, sudden_crossing = q, stop_in_road = q\<rparr>"

definition pedestrian_config :: "real \<Rightarrow> real \<Rightarrow> PedestrianBehaviors TrafficConfig" where
  "pedestrian_config p q =
     \<lparr>rule_break_probability = p, behaviors = all_pedestrian_behaviors q\<rparr>"

definition constant_draws :: "real \<Rightarrow> rng" where
  "constant_draws u = ((\<lambda>_. u), 0)"

text \<open>
  A session with two sensors (1, 2), a pedestrian controller (3) of a pedestrian (4), two
  vehicles (5, 6) and the ego vehicle (7); vehicle 6 is already dead and actor 9 belongs
  to somebody else.
\<close>

definition sample_actors :: runner_actors where
  "sample_actors =
     \<lparr>sensors = [1, 2], pedestrian_controllers = [3], pedestrians = [4], vehicles = [5, 6],
      ego_vehicle = Some 7\<rparr>"

definition sample_sim :: sim where
  "sample_sim = \<lparr>alive = {1, 2, 3, 4, 5, 7, 9}, calls = []\<rparr>"

text \<open>
  The default evaluation thresholds; an ego vehicle at the origin that moves along the
  x axis with speed \<open>v\<close>; an iteration at clock \<open>t\<close>; a run whose setup succeeded.
\<close>

definition no_events :: runner_events where
  "no_events =
     \<lparr>runner_collisions = [], runner_lane_invasions = [], runner_red_lights_run = 0\<rparr>"

definition default_config :: EvaluationConfig where
  "default_config = \<lparr>timeout = 120, stuck_timeout = 30, stuck_speed_threshold = 0.5\<rparr>"

definition at_x :: "real \<Rightarrow> Location" where
  "at_x a = \<lparr>loc_x = a, loc_y = 0, loc_z = 0\<rparr>"

definition ego_moving :: "real \<Rightarrow> ego_state" where
  "ego_moving v = \<lparr>ego_location = at_x 0, ego_velocity = at_x v, ego_forward = at_x 1\<rparr>"

definition plain_tick :: "real \<Rightarrow> real \<Rightarrow> signal option \<Rightarrow> tick" where
  "plain_tick t v sg =
     \<lparr>clock = t, raised_before = None, ego_at_check = at_x 0, ego_at_update = ego_moving v,
      raised_after = sg\<rparr>"

definition sample_episode :: "Location option \<Rightarrow> tick list \<Rightarrow> episode" where
  "sample_episode dest ts =
     \<lparr>setup_ok = True, ego_spawned = True, runner_destination = dest, ego_start = at_x 0,
      start_clock = 0, ticks = ts, end_clock = 2, events = no_events\<rparr>"

section \<open>Properties of the locator\<close>



text \<open>
  C1. Whether a traversal pair matches the requested maneuver depends on the pair only
  through its normalized angle: STRAIGHT matches exactly when the absolute angle is
  below 30, LEFT\_TURN exactly when the angle is strictly between -120 and -60,
  RIGHT\_TURN exactly when it is strictly between 60 and 120. No angle matches two
  different maneuver types, and an angle in [30, 60], in [-60, -30] or of absolute value
  at least 120 (the region around plus/minus 180) matches none. A pair whose angle does
  not match is passed over by the junction scan.
\<close>

theorem turn_classification_bands:
  "(is_match STRAIGHT a \<longleftrightarrow> \<bar>a\<bar> < 30) \<and>
   (is_match LEFT_TURN a \<longleftrightarrow> -120 < a \<and> a < -60) \<and>
   (is_match RIGHT_TURN a \<longleftrightarrow> 60 < a \<and> a < 120) \<and>
   (mt \<noteq> mt' \<longrightarrow> \<not> (is_match mt a \<and> is_match mt' a)) \<and>
   ((30 \<le> a \<and> a \<le> 60) \<or> (-60 \<le> a \<and> a \<le> -30) \<or> 120 \<le> \<bar>a\<bar> \<longrightarrow> \<not> is_match mt a) \<and>
   (\<not> is_match mt (angle_diff (yaw (rotation (wp_transform m entry_wp)))
                               (yaw (rotation (wp_transform m exit_wp)))) \<longrightarrow>
      scan_junction_wps m mt ((entry_wp, exit_wp) # rest) = scan_junction_wps m mt rest)"
  by (cases mt; cases mt') (auto simp: is_match_def)

theorem turn_classification_bands_witness:
  "(30 \<le> (45::real) \<and> (45::real) \<le> 60) \<and> \<not> is_match RIGHT_TURN 45 \<and>
   LEFT_TURN \<noteq> RIGHT_TURN \<and> is_match LEFT_TURN (-90) \<and> \<not> is_match RIGHT_TURN (-90) \<and>
   scan_junction_wps one_junction_town RIGHT_TURN [(1, 2)] = None"
  using turn_classification_bands [of 45 RIGHT_TURN STRAIGHT one_junction_town 1 2 "[]"]
        turn_classification_bands [of "-90" LEFT_TURN RIGHT_TURN one_junction_town 1 2 "[]"]
  by (simp add: one_junction_town_def angle_diff_def py_mod_def is_match_def)






section \<open>Properties of the behavior injector\<close>

lemma unit_drawsD: "unit_draws g \<Longrightarrow> 0 \<le> fst g n \<and> fst g n < 1"
  by (simp add: unit_draws_def)

text \<open>
  C4, as amended. Speed variance is applied to every vehicle that passes the rule-break
  draw (first draw not above \<open>rule_break_probability\<close>), whatever the sub-behavior draws
  are: the last command sent for the vehicle is a speed-difference percentage
  \<open>-20 + 50 * u\<close> for the seventh draw \<open>u\<close>, which lies in the band from -20 to 30.
  A vehicle whose first draw is above the probability receives no command at all, no
  speed variance either.
\<close>

theorem speed_variance_gated:
  "(fst (random_random g) \<le> rule_break_probability config \<and> unit_draws g \<longrightarrow>
      (\<exists>cs speed_diff. fst (apply_vehicle_behavior vehicle config g) =
           cs @ [Vehicle_percentage_speed_difference vehicle speed_diff] \<and>
         speed_diff = -20 + 50 * fst g (snd g + 6) \<and> -20 \<le> speed_diff \<and> speed_diff < 30)) \<and>
   (fst (random_random g) > rule_break_probability config \<longrightarrow>
      fst (apply_vehicle_behavior vehicle config g) = [])"
proof (intro conjI impI)
  assume a: "fst (random_random g) \<le> rule_break_probability config \<and> unit_draws g"
  have r: "0 \<le> fst g (snd g + 6) \<and> fst g (snd g + 6) < 1"
    using a unit_drawsD by blast
  show "\<exists>cs speed_diff. fst (apply_vehicle_behavior vehicle config g) =
           cs @ [Vehicle_percentage_speed_difference vehicle speed_diff] \<and>
         speed_diff = -20 + 50 * fst g (snd g + 6) \<and> -20 \<le> speed_diff \<and> speed_diff < 30"
    using a r
    by (simp add: apply_vehicle_behavior_def random_random_def random_uniform_def Let_def
        split_def numeral_eq_Suc)
next
  assume "fst (random_random g) > rule_break_probability config"
  then show "fst (apply_vehicle_behavior vehicle config g) = []"
    by (simp add: apply_vehicle_behavior_def random_random_def Let_def split_def)
qed

theorem speed_variance_gated_witness:
  "fst (random_random (constant_draws 0.2)) \<le> rule_break_probability (vehicle_config 0.5 0) \<and>
   unit_draws (constant_draws 0.2) \<and>
   fst (apply_vehicle_behavior 1 (vehicle_config 0.5 0) (constant_draws 0.2)) =
     [Vehicle_percentage_speed_difference 1 (-10)] \<and>
   fst (random_random (constant_draws 0.9)) > rule_break_probability (vehicle_config 0.5 0) \<and>
   fst (apply_vehicle_behavior 1 (vehicle_config 0.5 0) (constant_draws 0.9)) = []"
  using speed_variance_gated [of "constant_draws 0.2" "vehicle_config 0.5 0" 1]
        speed_variance_gated [of "constant_draws 0.9" "vehicle_config 0.5 0" 1]
  by (simp add: unit_draws_def constant_draws_def apply_vehicle_behavior_def random_random_def
      random_uniform_def vehicle_config_def all_vehicle_behaviors_def Let_def split_def)

text \<open>
  C4 as stated fails: with rule-break probability 0.5 and a first draw of 0.9 the vehicle
  is rule-abiding, the function returns at once and no speed-difference percentage is
  applied to it.
\<close>

theorem speed_variance_skipped:
  "unit_draws (constant_draws 0.9) \<and>
   fst (apply_vehicle_behavior 1 (vehicle_config 0.5 1) (constant_draws 0.9)) = []"
  by (simp add: unit_draws_def constant_draws_def apply_vehicle_behavior_def random_random_def
      vehicle_config_def Let_def split_def)

text \<open>
  C6, as amended. With rule-break probability 0 and a first draw that is not exactly 0,
  no command is applied to a vehicle or to a pedestrian. With rule-break probability 1,
  every sub-behavior probability that the injector reads equal to 1 and draws in the
  unit interval, a vehicle receives the parameter sets of run-red-light, ignore-stop-sign,
  sudden-lane-change (both directions), ignore-right-of-way and tailgate, followed by
  the speed variance; a pedestrian receives the jaywalk speed and, when the runner has
  an ego vehicle, the sudden-crossing destination near it. The injector has no
  parameter set for sudden-brake, stop-in-road and ignore-signal.
\<close>

theorem injector_boundaries:
  "(rule_break_probability vconfig = 0 \<and> 0 < fst (random_random g) \<longrightarrow>
      fst (apply_vehicle_behavior vehicle vconfig g) = []) \<and>
   (rule_break_probability pconfig = 0 \<and> 0 < fst (random_random g) \<longrightarrow>
      fst (apply_pedestrian_behavior pconfig ego_loc g) = []) \<and>
   (unit_draws g \<and> rule_break_probability vconfig = 1 \<and>
    run_red_light (behaviors vconfig) = 1 \<and> ignore_stop_sign (behaviors vconfig) = 1 \<and>
    sudden_lane_change (behaviors vconfig) = 1 \<and> ignore_right_of_way (behaviors vconfig) = 1 \<and>
    tailgate (behaviors vconfig) = 1 \<longrightarrow>
      fst (apply_vehicle_behavior vehicle vconfig g) =
        [Ignore_lights_percentage vehicle 100, Ignore_signs_percentage vehicle 100,
         Random_left_lanechange_percentage vehicle 50,
         Random_right_lanechange_percentage vehicle 50,
         Ignore_vehicles_percentage vehicle 50, Distance_to_leading_vehicle vehicle 1,
         Vehicle_percentage_speed_difference vehicle (-20 + 50 * fst g (snd g + 6))]) \<and>
   (unit_draws g \<and> rule_break_probability pconfig = 1 \<and>
    jaywalk (behaviors pconfig) = 1 \<and> sudden_crossing (behaviors pconfig) = 1 \<longrightarrow>
      fst (apply_pedestrian_behavior pconfig ego_loc g) =
        Set_max_speed (1.5 + 1.5 * fst g (snd g + 2)) #
        (case ego_loc of
           None \<Rightarrow> []
         | Some e \<Rightarrow> [Go_to_location \<lparr>loc_x = loc_x e + (-10 + 20 * fst g (snd g + 5)),
                                       loc_y = loc_y e + (-10 + 20 * fst g (snd g + 6)),
                                       loc_z = loc_z e\<rparr>]))"
proof (intro conjI impI)
  assume "rule_break_probability vconfig = 0 \<and> 0 < fst (random_random g)"
  then show "fst (apply_vehicle_behavior vehicle vconfig g) = []"
    by (simp add: apply_vehicle_behavior_def random_random_def Let_def split_def)
next
  assume "rule_break_probability pconfig = 0 \<and> 0 < fst (random_random g)"
  then show "fst (apply_pedestrian_behavior pconfig ego_loc g) = []"
    by (simp add: apply_pedestrian_behavior_def random_random_def Let_def split_def)
next
  assume a: "unit_draws g \<and> rule_break_probability vconfig = 1 \<and>
    run_red_light (behaviors vconfig) = 1 \<and> ignore_stop_sign (behaviors vconfig) = 1 \<and>
    sudden_lane_change (behaviors vconfig) = 1 \<and> ignore_right_of_way (behaviors vconfig) = 1 \<and>
    tailgate (behaviors vconfig) = 1"
  then have u: "\<And>n. fst g n < 1" "\<And>n. \<not> 1 < fst g n"
    using unit_drawsD [of g] by (auto simp: not_less intro: less_imp_le)
  show "fst (apply_vehicle_behavior vehicle vconfig g) =
        [Ignore_lights_percentage vehicle 100, Ignore_signs_percentage vehicle 100,
         Random_left_lanechange_percentage vehicle 50,
         Random_right_lanechange_percentage vehicle 50,
         Ignore_vehicles_percentage vehicle 50, Distance_to_leading_vehicle vehicle 1,
         Vehicle_percentage_speed_difference vehicle (-20 + 50 * fst g (snd g + 6))]"
    using a u
    by (simp add: apply_vehicle_behavior_def random_random_def random_uniform_def Let_def
        split_def numeral_eq_Suc)
next
  assume a: "unit_draws g \<and> rule_break_probability pconfig = 1 \<and>
    jaywalk (behaviors pconfig) = 1 \<and> sudden_crossing (behaviors pconfig) = 1"
  then have u: "\<And>n. fst g n < 1" "\<And>n. \<not> 1 < fst g n"
    using unit_drawsD [of g] by (auto simp: not_less intro: less_imp_le)
  show "fst (apply_pedestrian_behavior pconfig ego_loc g) =
        Set_max_speed (1.5 + 1.5 * fst g (snd g + 2)) #
        (case ego_loc of
           None \<Rightarrow> []
         | Some e \<Rightarrow> [Go_to_location \<lparr>loc_x = loc_x e + (-10 + 20 * fst g (snd g + 5)),
                                       loc_y = loc_y e + (-10 + 20 * fst g (snd g + 6)),
                                       loc_z = loc_z e\<rparr>])"
    using a u
    by (cases ego_loc)
       (simp_all add: apply_pedestrian_behavior_def random_random_def random_uniform_def
          Let_def split_def numeral_eq_Suc)
qed

theorem injector_boundaries_witness:
  "rule_break_probability (vehicle_config 0 1) = 0 \<and>
   0 < fst (random_random (constant_draws 0.5)) \<and> unit_draws (constant_draws 0.5) \<and>
   fst (apply_vehicle_behavior 1 (vehicle_config 0 1) (constant_draws 0.5)) = [] \<and>
   fst (apply_pedestrian_behavior (pedestrian_config 0 1) None (constant_draws 0.5)) = [] \<and>
   fst (apply_vehicle_behavior 1 (vehicle_config 1 1) (constant_draws 0.5)) =
     [Ignore_lights_percentage 1 100, Ignore_signs_percentage 1 100,
      Random_left_lanechange_percentage 1 50, Random_right_lanechange_percentage 1 50,
      Ignore_vehicles_percentage 1 50, Distance_to_leading_vehicle 1 1,
      Vehicle_percentage_speed_difference 1 5] \<and>
   fst (apply_pedestrian_behavior (pedestrian_config 1 1) (Some (at_x 0)) (constant_draws 0.5)) =
     [Set_max_speed 2.25, Go_to_location (at_x 0)]"
  using injector_boundaries [of "vehicle_config 0 1" "constant_draws 0.5" 1
          "pedestrian_config 0 1" None]
        injector_boundaries [of "vehicle_config 1 1" "constant_draws 0.5" 1
          "pedestrian_config 1 1" "Some (at_x 0)"]
  by (simp add: unit_draws_def constant_draws_def random_random_def vehicle_config_def
      all_vehicle_behaviors_def pedestrian_config_def all_pedestrian_behaviors_def at_x_def)

text \<open>
  C6 as stated fails. \<open>random.random()\<close> can return exactly 0, which is not greater
  than a rule-break probability of 0: the vehicle passes the gate and, with sub-behavior
  probabilities of 1, receives every parameter set. With all probabilities 1 and no ego
  vehicle, a pedestrian receives the jaywalk speed only.
\<close>

theorem zero_probability_zero_draw:
  "unit_draws (constant_draws 0) \<and>
   rule_break_probability (vehicle_config 0 1) = 0 \<and>
   fst (apply_vehicle_behavior 1 (vehicle_config 0 1) (constant_draws 0)) =
     [Ignore_lights_percentage 1 100, Ignore_signs_percentage 1 100,
      Random_left_lanechange_percentage 1 50, Random_right_lanechange_percentage 1 50,
      Ignore_vehicles_percentage 1 50, Distance_to_leading_vehicle 1 1,
      Vehicle_percentage_speed_difference 1 (-20)] \<and>
   fst (apply_pedestrian_behavior (pedestrian_config 1 1) None (constant_draws 0)) =
     [Set_max_speed 1.5]"
  by (simp add: unit_draws_def constant_draws_def apply_vehicle_behavior_def random_random_def
      random_uniform_def vehicle_config_def all_vehicle_behaviors_def Let_def split_def
      apply_pedestrian_behavior_def pedestrian_config_def all_pedestrian_behaviors_def)

section \<open>Properties of the session cleanup\<close>

lemma destroy_each_result:
  "\<exists>ds. destroy_each as w =
           Inr (w\<lparr>alive := alive w - set ds, calls := calls w @ map Destroy ds\<rparr>) \<and>
        distinct ds \<and> set ds = set as \<inter> alive w"
proof (induction as arbitrary: w)
  case Nil
  show ?case by (rule exI [of _ "[]"]) simp
next
  case (Cons a as)
  show ?case
  proof (cases "a \<in> alive w")
    case False
    from Cons.IH [of w] obtain ds where
      "destroy_each as w = Inr (w\<lparr>alive := alive w - set ds, calls := calls w @ map Destroy ds\<rparr>)"
      "distinct ds" "set ds = set as \<inter> alive w" by blast
    with False show ?thesis by (intro exI [of _ ds]) auto
  next
    case True
    let ?w = "w\<lparr>alive := alive w - {a}, calls := calls w @ [Destroy a]\<rparr>"
    from Cons.IH [of ?w] obtain ds where ds:
      "destroy_each as ?w = Inr (?w\<lparr>alive := alive ?w - set ds, calls := calls ?w @ map Destroy ds\<rparr>)"
      "distinct ds" "set ds = set as \<inter> alive ?w" by blast
    have step: "destroy_each (a # as) w = destroy_each as ?w"
      using True by (simp add: actor_destroy_def)
    have eq: "alive w - {a} - set ds = alive w - set (a # ds)" by auto
    have res: "?w\<lparr>alive := alive ?w - set ds, calls := calls ?w @ map Destroy ds\<rparr> =
               w\<lparr>alive := alive w - set (a # ds), calls := calls w @ map Destroy (a # ds)\<rparr>"
      by (simp add: eq)
    have d: "distinct (a # ds)" using ds(2) ds(3) by simp
    have m: "set (a # ds) = set (a # as) \<inter> alive w" using ds(3) True by auto
    show ?thesis
      using step ds(1) res d m by (intro exI [of _ "a # ds"]) (simp only: simp_thms)
  qed
qed

lemma stop_and_destroy_each_result:
  "\<exists>ds. stop_and_destroy_each cs w =
           Inr (w\<lparr>alive := alive w - set ds, calls := calls w @ stop_destroy_calls ds\<rparr>) \<and>
        distinct ds \<and> set ds = set cs \<inter> alive w"
proof (induction cs arbitrary: w)
  case Nil
  show ?case by (rule exI [of _ "[]"]) (simp add: stop_destroy_calls_def)
next
  case (Cons c cs)
  show ?case
  proof (cases "c \<in> alive w")
    case False
    from Cons.IH [of w] obtain ds where
      "stop_and_destroy_each cs w =
         Inr (w\<lparr>alive := alive w - set ds, calls := calls w @ stop_destroy_calls ds\<rparr>)"
      "distinct ds" "set ds = set cs \<inter> alive w" by blast
    with False show ?thesis by (intro exI [of _ ds]) auto
  next
    case True
    let ?w = "w\<lparr>alive := alive w - {c}, calls := calls w @ [Stop c, Destroy c]\<rparr>"
    from Cons.IH [of ?w] obtain ds where ds:
      "stop_and_destroy_each cs ?w =
         Inr (?w\<lparr>alive := alive ?w - set ds, calls := calls ?w @ stop_destroy_calls ds\<rparr>)"
      "distinct ds" "set ds = set cs \<inter> alive ?w" by blast
    have step: "stop_and_destroy_each (c # cs) w = stop_and_destroy_each cs ?w"
      using True by (simp add: actor_destroy_def controller_stop_def)
    have eq: "alive w - {c} - set ds = alive w - set (c # ds)" by auto
    have res: "?w\<lparr>alive := alive ?w - set ds, calls := calls ?w @ stop_destroy_calls ds\<rparr> =
               w\<lparr>alive := alive w - set (c # ds), calls := calls w @ stop_destroy_calls (c # ds)\<rparr>"
      by (simp add: eq stop_destroy_calls_def)
    have d: "distinct (c # ds)" using ds(2) ds(3) by simp
    have m: "set (c # ds) = set (c # cs) \<inter> alive w" using ds(3) True by auto
    show ?thesis
      using step ds(1) res d m by (intro exI [of _ "c # ds"]) (simp only: simp_thms)
  qed
qed

lemma destroy_each_fields:
  obtains ds w' where "destroy_each as w = Inr w'"
    and "alive w' = alive w - set ds" and "calls w' = calls w @ map Destroy ds"
    and "distinct ds" and "set ds = set as \<inter> alive w"
proof -
  let ?w' = "\<lambda>ds. w\<lparr>alive := alive w - set ds, calls := calls w @ map Destroy ds\<rparr>"
  from destroy_each_result [of as w] obtain ds where
    r: "destroy_each as w = Inr (?w' ds)" "distinct ds" "set ds = set as \<inter> alive w"
    by blast
  have a: "alive (?w' ds) = alive w - set ds" by simp
  have c: "calls (?w' ds) = calls w @ map Destroy ds" by simp
  show ?thesis by (rule that [OF r(1) a c r(2) r(3)])
qed

lemma stop_and_destroy_each_fields:
  obtains ds w' where "stop_and_destroy_each cs w = Inr w'"
    and "alive w' = alive w - set ds" and "calls w' = calls w @ stop_destroy_calls ds"
    and "distinct ds" and "set ds = set cs \<inter> alive w"
proof -
  let ?w' = "\<lambda>ds. w\<lparr>alive := alive w - set ds, calls := calls w @ stop_destroy_calls ds\<rparr>"
  from stop_and_destroy_each_result [of cs w] obtain ds where
    r: "stop_and_destroy_each cs w = Inr (?w' ds)" "distinct ds" "set ds = set cs \<inter> alive w"
    by blast
  have a: "alive (?w' ds) = alive w - set ds" by simp
  have c: "calls (?w' ds) = calls w @ stop_destroy_calls ds" by simp
  show ?thesis by (rule that [OF r(1) a c r(2) r(3)])
qed

lemma destroy_ego_fields:
  obtains ds w' where "destroy_ego ego_opt w = Inr w'"
    and "alive w' = alive w - set ds" and "calls w' = calls w @ map Destroy ds"
    and "distinct ds" and "set ds = set_option ego_opt \<inter> alive w"
proof (cases ego_opt)
  case None
  then show ?thesis by (intro that [of w "[]"]) (simp_all add: destroy_ego_def)
next
  case (Some e)
  show ?thesis
  proof (cases "e \<in> alive w")
    case True
    with Some show ?thesis
      by (intro that [of "w\<lparr>alive := alive w - {e}, calls := calls w @ [Destroy e]\<rparr>" "[e]"])
         (simp_all add: destroy_ego_def actor_destroy_def)
  next
    case False
    with Some show ?thesis by (intro that [of w "[]"]) (simp_all add: destroy_ego_def)
  qed
qed

lemma cleanup_no_actors: "cleanup no_actors w = Inr (no_actors, w)"
  by (simp add: cleanup_def no_actors_def destroy_ego_def)

lemma cleanup_steps:
  assumes "destroy_each (sensors r) w = Inr w1"
    and "stop_and_destroy_each (pedestrian_controllers r) w1 = Inr w2"
    and "destroy_each (pedestrians r) w2 = Inr w3"
    and "destroy_each (vehicles r) w3 = Inr w4"
    and "destroy_ego (ego_vehicle r) w4 = Inr w5"
  shows "cleanup r w = Inr (no_actors, w5)"
  using assms by (simp add: cleanup_def no_actors_def destroy_ego_def Let_def)

text \<open>
  C7. Cleanup never fails, whatever the runner holds and whichever of its actors are
  alive. Afterwards every actor list is empty and the ego handle is cleared, so that a
  second cleanup makes no simulator call at all. The calls of the first cleanup destroy
  live sensors first, then stop and destroy live pedestrian controllers, then destroy
  live pedestrians, then live vehicles, then the live ego vehicle; no actor is destroyed
  twice, only actors that were alive are destroyed, and every live actor of the runner
  is destroyed.
\<close>

theorem cleanup_idempotent:
  "\<exists>ds_s ds_c ds_p ds_v ds_e w'.
     cleanup r w = Inr (no_actors, w') \<and>
     cleanup no_actors w' = Inr (no_actors, w') \<and>
     calls w' = calls w @ map Destroy ds_s @ stop_destroy_calls ds_c @ map Destroy ds_p @
                 map Destroy ds_v @ map Destroy ds_e \<and>
     set ds_s \<subseteq> set (sensors r) \<and> set ds_c \<subseteq> set (pedestrian_controllers r) \<and>
     set ds_p \<subseteq> set (pedestrians r) \<and> set ds_v \<subseteq> set (vehicles r) \<and>
     set ds_e \<subseteq> set_option (ego_vehicle r) \<and>
     distinct (ds_s @ ds_c @ ds_p @ ds_v @ ds_e) \<and>
     set (ds_s @ ds_c @ ds_p @ ds_v @ ds_e) = owned_actors r \<inter> alive w \<and>
     alive w' = alive w - owned_actors r"
proof -
  obtain ds_s w1 where s: "destroy_each (sensors r) w = Inr w1"
    "alive w1 = alive w - set ds_s" "calls w1 = calls w @ map Destroy ds_s"
    "distinct ds_s" "set ds_s = set (sensors r) \<inter> alive w"
    by (rule destroy_each_fields)
  obtain ds_c w2 where c: "stop_and_destroy_each (pedestrian_controllers r) w1 = Inr w2"
    "alive w2 = alive w1 - set ds_c" "calls w2 = calls w1 @ stop_destroy_calls ds_c"
    "distinct ds_c" "set ds_c = set (pedestrian_controllers r) \<inter> alive w1"
    by (rule stop_and_destroy_each_fields)
  obtain ds_p w3 where p: "destroy_each (pedestrians r) w2 = Inr w3"
    "alive w3 = alive w2 - set ds_p" "calls w3 = calls w2 @ map Destroy ds_p"
    "distinct ds_p" "set ds_p = set (pedestrians r) \<inter> alive w2"
    by (rule destroy_each_fields)
  obtain ds_v w4 where v: "destroy_each (vehicles r) w3 = Inr w4"
    "alive w4 = alive w3 - set ds_v" "calls w4 = calls w3 @ map Destroy ds_v"
    "distinct ds_v" "set ds_v = set (vehicles r) \<inter> alive w3"
    by (rule destroy_each_fields)
  obtain ds_e w5 where e: "destroy_ego (ego_vehicle r) w4 = Inr w5"
    "alive w5 = alive w4 - set ds_e" "calls w5 = calls w4 @ map Destroy ds_e"
    "distinct ds_e" "set ds_e = set_option (ego_vehicle r) \<inter> alive w4"
    by (rule destroy_ego_fields)
  have run: "cleanup r w = Inr (no_actors, w5)"
    using s(1) c(1) p(1) v(1) e(1) by (rule cleanup_steps)
  have log: "calls w5 = calls w @ map Destroy ds_s @ stop_destroy_calls ds_c @
               map Destroy ds_p @ map Destroy ds_v @ map Destroy ds_e"
    by (simp add: s(3) c(3) p(3) v(3) e(3))
  have sets:
    "set ds_c = set (pedestrian_controllers r) \<inter> (alive w - set ds_s)"
    "set ds_p = set (pedestrians r) \<inter> (alive w - set ds_s - set ds_c)"
    "set ds_v = set (vehicles r) \<inter> (alive w - set ds_s - set ds_c - set ds_p)"
    "set ds_e = set_option (ego_vehicle r) \<inter>
                (alive w - set ds_s - set ds_c - set ds_p - set ds_v)"
    by (simp_all add: s(2) c(2,5) p(2,5) v(2,5) e(5))
  have disj: "set ds_s \<inter> set ds_c = {}" "set ds_s \<inter> set ds_p = {}" "set ds_s \<inter> set ds_v = {}"
    "set ds_s \<inter> set ds_e = {}" "set ds_c \<inter> set ds_p = {}" "set ds_c \<inter> set ds_v = {}"
    "set ds_c \<inter> set ds_e = {}" "set ds_p \<inter> set ds_v = {}" "set ds_p \<inter> set ds_e = {}"
    "set ds_v \<inter> set ds_e = {}"
    using sets by blast+
  have dist: "distinct (ds_s @ ds_c @ ds_p @ ds_v @ ds_e)"
    using s(4) c(4) p(4) v(4) e(4) disj by (simp add: Int_Un_distrib)
  have cover: "set (ds_s @ ds_c @ ds_p @ ds_v @ ds_e) = owned_actors r \<inter> alive w"
    unfolding owned_actors_def set_append using s(5) sets by blast
  have live: "alive w5 = alive w - owned_actors r"
    unfolding owned_actors_def e(2) v(2) p(2) c(2) s(2) using s(5) sets by blast
  show ?thesis
    apply (rule exI [of _ ds_s], rule exI [of _ ds_c], rule exI [of _ ds_p],
           rule exI [of _ ds_v], rule exI [of _ ds_e], rule exI [of _ w5])
    apply (intro conjI)
              apply (rule run)
             apply (rule cleanup_no_actors)
            apply (rule log)
    using s(5) apply blast
    using sets(1) apply blast
    using sets(2) apply blast
    using sets(3) apply blast
    using sets(4) apply blast
      apply (rule dist)
     apply (rule cover)
    apply (rule live)
    done
qed

theorem cleanup_idempotent_witness:
  "\<exists>w'. cleanup sample_actors sample_sim = Inr (no_actors, w') \<and>
        cleanup no_actors w' = Inr (no_actors, w') \<and> alive w' = {9}"
proof -
  from cleanup_idempotent [of sample_actors sample_sim] obtain w' where
    "cleanup sample_actors sample_sim = Inr (no_actors, w')"
    "cleanup no_actors w' = Inr (no_actors, w')"
    "alive w' = alive sample_sim - owned_actors sample_actors" by blast
  moreover have "alive sample_sim - owned_actors sample_actors = {9}"
    by (auto simp: sample_sim_def sample_actors_def owned_actors_def)
  ultimately show ?thesis by auto
qed

lemma cleanup_sample_calls:
  "cleanup sample_actors sample_sim =
     Inr (no_actors,
          \<lparr>alive = {9},
           calls = [Destroy 1, Destroy 2, Stop 3, Destroy 3, Destroy 4, Destroy 5, Destroy 7]\<rparr>)"
  by (simp add: cleanup_def sample_actors_def sample_sim_def no_actors_def destroy_ego_def
      actor_destroy_def controller_stop_def Let_def insert_Diff_if)

section \<open>Properties of the metrics aggregator and the evaluation loop\<close>

lemma speed_of_at_x [simp]: "speed_of (at_x v) = \<bar>v\<bar>"
  by (simp add: speed_of_def at_x_def)

lemma distance_at_x [simp]: "distance (at_x a) (at_x b) = \<bar>a - b\<bar>"
  by (simp add: distance_def at_x_def)

lemma acceleration_update_fields [simp]:
  "speed_history (acceleration_update e t ev) = speed_history ev"
  "stuck_start_time (acceleration_update e t ev) = stuck_start_time ev"
  "stuck (metrics (acceleration_update e t ev)) = stuck (metrics ev)"
  "start_time (acceleration_update e t ev) = start_time ev"
  by (simp_all add: acceleration_update_def Let_def split: option.splits)

lemma stuck_detection_fields [simp]:
  "speed_history (stuck_detection cfg s t ev) = speed_history ev"
  "acceleration_history (stuck_detection cfg s t ev) = acceleration_history ev"
  "start_time (stuck_detection cfg s t ev) = start_time ev"
  by (simp_all add: stuck_detection_def split: option.splits)

lemma update_metrics_start_time [simp]:
  "start_time (update_metrics cfg d e t ev) = start_time ev"
  by (simp add: update_metrics_def Let_def split: option.splits)

subsection \<open>Stuck detection\<close>

lemma stuck_detection_timer:
  "stuck_start_time (stuck_detection cfg s t ev) =
     (if s < stuck_speed_threshold cfg
      then (case stuck_start_time ev of None \<Rightarrow> Some t | Some t0 \<Rightarrow> Some t0)
      else None)"
  by (simp add: stuck_detection_def split: option.splits)

lemma stuck_detection_flag:
  "stuck (metrics (stuck_detection cfg s t ev)) \<longleftrightarrow>
     stuck (metrics ev) \<or>
     (s < stuck_speed_threshold cfg \<and>
      (\<exists>t0. stuck_start_time ev = Some t0 \<and> t - t0 > stuck_timeout cfg))"
  by (simp add: stuck_detection_def split: option.splits)

lemma update_metrics_timer:
  "stuck_start_time (update_metrics cfg d e t ev) =
     (if speed_of (ego_velocity e) < stuck_speed_threshold cfg
      then (case stuck_start_time ev of None \<Rightarrow> Some t | Some t0 \<Rightarrow> Some t0)
      else None)"
  by (simp add: update_metrics_def Let_def stuck_detection_timer split: option.splits)

lemma update_metrics_flag:
  "stuck (metrics (update_metrics cfg d e t ev)) \<longleftrightarrow>
     stuck (metrics ev) \<or>
     (speed_of (ego_velocity e) < stuck_speed_threshold cfg \<and>
      (\<exists>t0. stuck_start_time ev = Some t0 \<and> t - t0 > stuck_timeout cfg))"
  by (simp add: update_metrics_def Let_def stuck_detection_flag split: option.splits)

lemma update_metrics_seq_append:
  "update_metrics_seq cfg d ev (us @ vs) =
     update_metrics_seq cfg d (update_metrics_seq cfg d ev us) vs"
  by (induction us arbitrary: ev) auto

lemma below_run_keeps_timer:
  assumes "\<forall>u\<in>set us. below_threshold cfg u \<and> snd u - t0 \<le> stuck_timeout cfg"
    and "stuck_start_time ev = Some t0" and "\<not> stuck (metrics ev)"
  shows "stuck_start_time (update_metrics_seq cfg d ev us) = Some t0 \<and>
         \<not> stuck (metrics (update_metrics_seq cfg d ev us))"
  using assms
proof (induction us arbitrary: ev)
  case Nil
  then show ?case by simp
next
  case (Cons u us)
  obtain e t where u: "u = (e, t)" by (cases u)
  have b: "speed_of (ego_velocity e) < stuck_speed_threshold cfg" "t - t0 \<le> stuck_timeout cfg"
    using Cons.prems(1) u by (simp_all add: below_threshold_def)
  have t1: "stuck_start_time (update_metrics cfg d e t ev) = Some t0"
    using b Cons.prems(2) by (simp add: update_metrics_timer)
  have f1: "\<not> stuck (metrics (update_metrics cfg d e t ev))"
    using b Cons.prems(2,3) by (simp add: update_metrics_flag)
  have rest: "\<forall>u\<in>set us. below_threshold cfg u \<and> snd u - t0 \<le> stuck_timeout cfg"
    using Cons.prems(1) by simp
  from Cons.IH [OF rest t1 f1] show ?case by (simp add: u)
qed

lemma below_run_from_unset:
  assumes "\<forall>u\<in>set us. below_threshold cfg u \<and> snd u - snd (hd us) \<le> stuck_timeout cfg"
    and "stuck_start_time ev = None" and "\<not> stuck (metrics ev)"
  shows "\<not> stuck (metrics (update_metrics_seq cfg d ev us))"
proof (cases us)
  case Nil
  with assms show ?thesis by simp
next
  case (Cons u rest)
  obtain e t where u: "u = (e, t)" by (cases u)
  have b: "speed_of (ego_velocity e) < stuck_speed_threshold cfg"
    using assms(1) Cons u by (simp add: below_threshold_def)
  have t1: "stuck_start_time (update_metrics cfg d e t ev) = Some t"
    using b assms(2) by (simp add: update_metrics_timer)
  have f1: "\<not> stuck (metrics (update_metrics cfg d e t ev))"
    using assms(2,3) by (simp add: update_metrics_flag)
  have r: "\<forall>u\<in>set rest. below_threshold cfg u \<and> snd u - t \<le> stuck_timeout cfg"
    using assms(1) Cons u by simp
  from below_run_keeps_timer [OF r t1 f1] show ?thesis by (simp add: Cons u)
qed

lemma two_intervals_not_stuck:
  assumes A: "\<forall>u\<in>set A. below_threshold cfg u \<and> snd u - snd (hd A) \<le> stuck_timeout cfg"
    and r: "\<not> below_threshold cfg r"
    and B: "\<forall>u\<in>set B. below_threshold cfg u \<and> snd u - snd (hd B) \<le> stuck_timeout cfg"
    and init: "stuck_start_time ev = None" "\<not> stuck (metrics ev)"
  shows "\<not> stuck (metrics (update_metrics_seq cfg d ev (A @ r # B)))"
proof -
  let ?evA = "update_metrics_seq cfg d ev A"
  obtain e t where rt: "r = (e, t)" by (cases r)
  let ?evr = "update_metrics cfg d e t ?evA"
  have fA: "\<not> stuck (metrics ?evA)" using below_run_from_unset [OF A init] .
  have nb: "\<not> speed_of (ego_velocity e) < stuck_speed_threshold cfg"
    using r rt by (simp add: below_threshold_def)
  have tr: "stuck_start_time ?evr = None" using nb by (simp add: update_metrics_timer)
  have fr: "\<not> stuck (metrics ?evr)" using nb fA by (simp add: update_metrics_flag)
  have "update_metrics_seq cfg d ev (A @ r # B) = update_metrics_seq cfg d ?evr B"
    by (simp add: update_metrics_seq_append rt)
  with below_run_from_unset [OF B tr fr] show ?thesis by simp
qed

lemma stuck_interval_invariant:
  assumes "\<not> stuck (metrics ev)" and "stuck_start_time ev = None"
  shows "(stuck (metrics (update_metrics_seq cfg d ev us)) \<longrightarrow>
            (\<exists>i j. i < j \<and> j < length us \<and>
                   (\<forall>k. i \<le> k \<and> k \<le> j \<longrightarrow> below_threshold cfg (us ! k)) \<and>
                   snd (us ! j) - snd (us ! i) > stuck_timeout cfg)) \<and>
         (\<forall>t0. stuck_start_time (update_metrics_seq cfg d ev us) = Some t0 \<longrightarrow>
            (\<exists>i<length us. snd (us ! i) = t0 \<and>
                   (\<forall>k. i \<le> k \<and> k < length us \<longrightarrow> below_threshold cfg (us ! k))))"
proof (induction us rule: rev_induct)
  case Nil
  with assms show ?case by simp
next
  case (snoc u us)
  obtain e t where u: "u = (e, t)" by (cases u)
  let ?ev = "update_metrics_seq cfg d ev us"
  let ?ev' = "update_metrics cfg d e t ?ev"
  have seq: "update_metrics_seq cfg d ev (us @ [u]) = ?ev'"
    by (simp add: update_metrics_seq_append u)
  have old_flag: "stuck (metrics ?ev) \<Longrightarrow>
      \<exists>i j. i < j \<and> j < length (us @ [u]) \<and>
             (\<forall>k. i \<le> k \<and> k \<le> j \<longrightarrow> below_threshold cfg ((us @ [u]) ! k)) \<and>
             snd ((us @ [u]) ! j) - snd ((us @ [u]) ! i) > stuck_timeout cfg"
  proof -
    assume "stuck (metrics ?ev)"
    with snoc.IH obtain i j where ij: "i < j" "j < length us"
      "\<forall>k. i \<le> k \<and> k \<le> j \<longrightarrow> below_threshold cfg (us ! k)"
      "snd (us ! j) - snd (us ! i) > stuck_timeout cfg" by blast
    have "\<forall>k. i \<le> k \<and> k \<le> j \<longrightarrow> below_threshold cfg ((us @ [u]) ! k)"
      using ij(2,3) by (simp add: nth_append)
    moreover have "snd ((us @ [u]) ! j) - snd ((us @ [u]) ! i) > stuck_timeout cfg"
      using ij(1,2,4) by (simp add: nth_append)
    ultimately show ?thesis using ij(1,2) by (intro exI [of _ i] exI [of _ j]) simp
  qed
  show ?case
  proof (cases "below_threshold cfg u")
    case False
    then have nb: "\<not> speed_of (ego_velocity e) < stuck_speed_threshold cfg"
      by (simp add: below_threshold_def u)
    have "stuck_start_time ?ev' = None" using nb by (simp add: update_metrics_timer)
    moreover have "stuck (metrics ?ev') = stuck (metrics ?ev)"
      using nb by (simp add: update_metrics_flag)
    ultimately show ?thesis using old_flag by (simp only: seq) simp
  next
    case True
    then have b: "speed_of (ego_velocity e) < stuck_speed_threshold cfg"
      by (simp add: below_threshold_def u)
    show ?thesis
    proof (cases "stuck_start_time ?ev")
      case None
      have t': "stuck_start_time ?ev' = Some t" using b None by (simp add: update_metrics_timer)
      have f': "stuck (metrics ?ev') = stuck (metrics ?ev)"
        using None by (simp add: update_metrics_flag)
      have "\<exists>i<length (us @ [u]). snd ((us @ [u]) ! i) = t \<and>
              (\<forall>k. i \<le> k \<and> k < length (us @ [u]) \<longrightarrow> below_threshold cfg ((us @ [u]) ! k))"
        using True u by (intro exI [of _ "length us"]) (auto simp: nth_append)
      with t' f' old_flag show ?thesis by (simp only: seq) simp
    next
      case (Some t0)
      have t': "stuck_start_time ?ev' = Some t0" using b Some by (simp add: update_metrics_timer)
      have f': "stuck (metrics ?ev') \<longleftrightarrow> stuck (metrics ?ev) \<or> t - t0 > stuck_timeout cfg"
        using b Some by (simp add: update_metrics_flag)
      from snoc.IH Some obtain i where i: "i < length us" "snd (us ! i) = t0"
        "\<forall>k. i \<le> k \<and> k < length us \<longrightarrow> below_threshold cfg (us ! k)" by blast
      have all: "\<forall>k. i \<le> k \<and> k < length (us @ [u]) \<longrightarrow> below_threshold cfg ((us @ [u]) ! k)"
        using i(3) True by (auto simp: nth_append less_Suc_eq)
      have timer: "\<exists>i<length (us @ [u]). snd ((us @ [u]) ! i) = t0 \<and>
              (\<forall>k. i \<le> k \<and> k < length (us @ [u]) \<longrightarrow> below_threshold cfg ((us @ [u]) ! k))"
        using i(1,2) all by (intro exI [of _ i]) (simp add: nth_append)
      have new_flag: "t - t0 > stuck_timeout cfg \<Longrightarrow>
        \<exists>i j. i < j \<and> j < length (us @ [u]) \<and>
             (\<forall>k. i \<le> k \<and> k \<le> j \<longrightarrow> below_threshold cfg ((us @ [u]) ! k)) \<and>
             snd ((us @ [u]) ! j) - snd ((us @ [u]) ! i) > stuck_timeout cfg"
        using i(1,2) all u
        by (intro exI [of _ i] exI [of _ "length us"]) (simp add: nth_append)
      from t' f' old_flag new_flag timer show ?thesis
        by (simp only: seq) blast
    qed
  qed
qed

lemma evaluation_loop_prefix:
  "\<exists>n\<le>length ts.
     stuck (metrics (exit_state (evaluation_loop cfg d ev ts))) =
     stuck (metrics (update_metrics_seq cfg d ev (map (tick_sample ev) (take n ts))))"
proof (induction ts arbitrary: ev)
  case Nil
  show ?case by simp
next
  case (Cons t ts)
  let ?ev' = "update_metrics cfg d (ego_at_update t) (clock t - start_time ev) ev"
  show ?case
  proof (cases "raised_before t = None \<and> \<not> clock t - start_time ev > timeout cfg \<and>
                \<not> stuck (metrics ev) \<and> \<not> check_completion d (ego_at_check t)")
    case False
    then have "stuck (metrics (exit_state (evaluation_loop cfg d ev (t # ts)))) =
               stuck (metrics ev)"
      by (auto simp: Let_def split: option.splits)
    then show ?thesis by (intro exI [of _ 0]) simp
  next
    case True
    show ?thesis
    proof (cases "raised_after t")
      case (Some sg)
      with True have "exit_state (evaluation_loop cfg d ev (t # ts)) = ?ev'"
        by (simp add: Let_def)
      then have "stuck (metrics (exit_state (evaluation_loop cfg d ev (t # ts)))) =
            stuck (metrics (update_metrics_seq cfg d ev (map (tick_sample ev) (take 1 (t # ts)))))"
        by (simp add: tick_sample_def)
      then show ?thesis by (intro exI [of _ 1]) simp
    next
      case None
      with True have step: "evaluation_loop cfg d ev (t # ts) = evaluation_loop cfg d ?ev' ts"
        by (simp add: Let_def)
      from Cons.IH [of ?ev'] obtain n where n: "n \<le> length ts"
        "stuck (metrics (exit_state (evaluation_loop cfg d ?ev' ts))) =
         stuck (metrics (update_metrics_seq cfg d ?ev' (map (tick_sample ?ev') (take n ts))))"
        by blast
      have same: "tick_sample ?ev' = tick_sample ev"
        by (rule ext) (simp add: tick_sample_def)
      have head: "map (tick_sample ev) (take (Suc n) (t # ts)) =
                  (ego_at_update t, clock t - start_time ev) # map (tick_sample ev) (take n ts)"
        by (simp add: tick_sample_def)
      have "stuck (metrics (exit_state (evaluation_loop cfg d ev (t # ts)))) =
            stuck (metrics (update_metrics_seq cfg d ev
              (map (tick_sample ev) (take (Suc n) (t # ts)))))"
        unfolding head step using n(2) by (simp add: same)
      with n(1) show ?thesis by (intro exI [of _ "Suc n"]) simp
    qed
  qed
qed

lemma evaluation_loop_stuck_interval:
  assumes "\<not> stuck (metrics ev)" and "stuck_start_time ev = None"
    and "stuck (metrics (exit_state (evaluation_loop cfg d ev ts)))"
  shows "\<exists>i j. i < j \<and> j < length ts \<and>
           (\<forall>k. i \<le> k \<and> k \<le> j \<longrightarrow>
              speed_of (ego_velocity (ego_at_update (ts ! k))) < stuck_speed_threshold cfg) \<and>
           clock (ts ! j) - clock (ts ! i) > stuck_timeout cfg"
proof -
  from evaluation_loop_prefix [of ts cfg d ev] assms(3) obtain n where n: "n \<le> length ts"
    "stuck (metrics (update_metrics_seq cfg d ev (map (tick_sample ev) (take n ts))))"
    by blast
  let ?us = "map (tick_sample ev) (take n ts)"
  from stuck_interval_invariant [OF assms(1,2), of cfg d ?us] n(2)
  obtain i j where ij: "i < j" "j < length ?us"
    "\<forall>k. i \<le> k \<and> k \<le> j \<longrightarrow> below_threshold cfg (?us ! k)"
    "snd (?us ! j) - snd (?us ! i) > stuck_timeout cfg" by blast
  have jn: "j < n" "j < length ts" using ij(2) n(1) by simp_all
  have nth: "\<And>k. k \<le> j \<Longrightarrow> ?us ! k = tick_sample ev (ts ! k)"
    using jn by simp
  have "\<forall>k. i \<le> k \<and> k \<le> j \<longrightarrow>
          speed_of (ego_velocity (ego_at_update (ts ! k))) < stuck_speed_threshold cfg"
    using ij(3) nth by (simp add: below_threshold_def tick_sample_def)
  moreover have "clock (ts ! j) - clock (ts ! i) > stuck_timeout cfg"
    using ij(1,4) nth [of j] nth [of i] by (simp add: tick_sample_def)
  ultimately show ?thesis using ij(1) jn(2) by blast
qed

text \<open>
  C2. In one call of \<open>update_metrics\<close> the stuck timer is set to the current time
  when the speed is below the threshold and the timer is unset, and it is unset when the
  speed is at or above the threshold. The stuck flag is set by a call exactly when it was
  set before, or the speed is below the threshold and the time since the running timer's
  start exceeds \<open>stuck_timeout\<close>. Hence, when the loop leaves with the flag set
  (starting with flag and timer unset), its iterations contain an uninterrupted run of
  below-threshold samples whose last clock reading is more than \<open>stuck_timeout\<close>
  after its first. And two below-threshold intervals separated by a sample at or above
  the threshold, in each of which no sample is more than \<open>stuck_timeout\<close> after the
  interval's first sample, never set the flag, however long they are together.
\<close>

theorem stuck_requires_sustained_low_speed:
  "(speed_of (ego_velocity e) < stuck_speed_threshold cfg \<and> stuck_start_time ev = None \<longrightarrow>
      stuck_start_time (update_metrics cfg d e t ev) = Some t) \<and>
   (\<not> speed_of (ego_velocity e) < stuck_speed_threshold cfg \<longrightarrow>
      stuck_start_time (update_metrics cfg d e t ev) = None) \<and>
   (stuck (metrics (update_metrics cfg d e t ev)) \<longleftrightarrow>
      stuck (metrics ev) \<or>
      (speed_of (ego_velocity e) < stuck_speed_threshold cfg \<and>
       (\<exists>t0. stuck_start_time ev = Some t0 \<and> t - t0 > stuck_timeout cfg))) \<and>
   (\<not> stuck (metrics ev0) \<and> stuck_start_time ev0 = None \<and>
    stuck (metrics (exit_state (evaluation_loop cfg d ev0 ts))) \<longrightarrow>
      (\<exists>i j. i < j \<and> j < length ts \<and>
         (\<forall>k. i \<le> k \<and> k \<le> j \<longrightarrow>
            speed_of (ego_velocity (ego_at_update (ts ! k))) < stuck_speed_threshold cfg) \<and>
         clock (ts ! j) - clock (ts ! i) > stuck_timeout cfg)) \<and>
   (\<not> stuck (metrics ev0) \<and> stuck_start_time ev0 = None \<and>
    (\<forall>u\<in>set A. below_threshold cfg u \<and> snd u - snd (hd A) \<le> stuck_timeout cfg) \<and>
    \<not> below_threshold cfg r \<and>
    (\<forall>u\<in>set B. below_threshold cfg u \<and> snd u - snd (hd B) \<le> stuck_timeout cfg) \<longrightarrow>
      \<not> stuck (metrics (update_metrics_seq cfg d ev0 (A @ r # B))))"
proof (intro conjI impI)
  assume "speed_of (ego_velocity e) < stuck_speed_threshold cfg \<and> stuck_start_time ev = None"
  then show "stuck_start_time (update_metrics cfg d e t ev) = Some t"
    by (simp add: update_metrics_timer)
next
  assume "\<not> speed_of (ego_velocity e) < stuck_speed_threshold cfg"
  then show "stuck_start_time (update_metrics cfg d e t ev) = None"
    by (simp add: update_metrics_timer)
next
  show "stuck (metrics (update_metrics cfg d e t ev)) \<longleftrightarrow>
      stuck (metrics ev) \<or>
      (speed_of (ego_velocity e) < stuck_speed_threshold cfg \<and>
       (\<exists>t0. stuck_start_time ev = Some t0 \<and> t - t0 > stuck_timeout cfg))"
    by (rule update_metrics_flag)
next
  assume "\<not> stuck (metrics ev0) \<and> stuck_start_time ev0 = None \<and>
    stuck (metrics (exit_state (evaluation_loop cfg d ev0 ts)))"
  then show "\<exists>i j. i < j \<and> j < length ts \<and>
         (\<forall>k. i \<le> k \<and> k \<le> j \<longrightarrow>
            speed_of (ego_velocity (ego_at_update (ts ! k))) < stuck_speed_threshold cfg) \<and>
         clock (ts ! j) - clock (ts ! i) > stuck_timeout cfg"
    using evaluation_loop_stuck_interval by blast
next
  assume a: "\<not> stuck (metrics ev0) \<and> stuck_start_time ev0 = None \<and>
    (\<forall>u\<in>set A. below_threshold cfg u \<and> snd u - snd (hd A) \<le> stuck_timeout cfg) \<and>
    \<not> below_threshold cfg r \<and>
    (\<forall>u\<in>set B. below_threshold cfg u \<and> snd u - snd (hd B) \<le> stuck_timeout cfg)"
  then show "\<not> stuck (metrics (update_metrics_seq cfg d ev0 (A @ r # B)))"
    using two_intervals_not_stuck [of A cfg r B ev0 d] by blast
qed

text \<open>
  An instance: 20 seconds of standstill, one sample at speed 2, then 23 seconds of
  standstill, with a stuck timeout of 30 seconds. The flag stays unset although the two
  intervals add up to 43 seconds.
\<close>

theorem stuck_requires_sustained_low_speed_witness:
  "\<not> stuck (metrics new_evaluator) \<and> stuck_start_time new_evaluator = None \<and>
   below_threshold default_config (ego_moving 0, 0) \<and>
   below_threshold default_config (ego_moving 0, 20) \<and>
   \<not> below_threshold default_config (ego_moving 2, 21) \<and>
   below_threshold default_config (ego_moving 0, 22) \<and>
   below_threshold default_config (ego_moving 0, 45) \<and>
   (20 - 0) + (45 - 22) > stuck_timeout default_config \<and>
   \<not> stuck (metrics (update_metrics_seq default_config None new_evaluator
        ([(ego_moving 0, 0), (ego_moving 0, 20)] @ (ego_moving 2, 21) #
         [(ego_moving 0, 22), (ego_moving 0, 45)])))"
  using stuck_requires_sustained_low_speed
    [where cfg = default_config and ?ev0.0 = new_evaluator and d = None
       and A = "[(ego_moving 0, 0), (ego_moving 0, 20)]" and r = "(ego_moving 2, 21)"
       and B = "[(ego_moving 0, 22), (ego_moving 0, 45)]"]
  by (simp add: below_threshold_def default_config_def ego_moving_def new_evaluator_def
      default_metrics_def)

text \<open>For comparison, one uninterrupted standstill of 31 seconds sets the flag.\<close>

lemma single_interval_stuck:
  "stuck (metrics (update_metrics_seq default_config None new_evaluator
        [(ego_moving 0, 0), (ego_moving 0, 20), (ego_moving 0, 31)]))"
  by (simp add: update_metrics_flag update_metrics_timer default_config_def ego_moving_def
      new_evaluator_def default_metrics_def)

subsection \<open>Comfort score\<close>

lemma np_var_nonneg: "np_var xs = Some v \<Longrightarrow> 0 \<le> v"
  by (auto simp: np_var_def np_mean_def split: if_splits intro!: divide_nonneg_nonneg sum_list_nonneg)

lemma np_var_defined: "xs \<noteq> [] \<Longrightarrow> \<exists>v. np_var xs = Some v"
  by (simp add: np_var_def np_mean_def)

lemma np_var_Some_nonempty: "np_var xs = Some v \<Longrightarrow> xs \<noteq> []"
  by (auto simp: np_var_def np_mean_def)

lemma comfort_finalize:
  "np_var (acceleration_history ev) = Some v \<Longrightarrow>
   comfort_score (metrics (finalize_metrics es t ev)) = max 0 (100 - 10 * v)"
  by (frule np_var_Some_nonempty) (simp add: finalize_metrics_def Let_def split: option.splits)

lemma comfort_finalize_empty:
  "acceleration_history ev = [] \<Longrightarrow>
   comfort_score (metrics (finalize_metrics es t ev)) = comfort_score (metrics ev)"
  by (simp add: finalize_metrics_def Let_def split: option.splits)

text \<open>
  C3, as amended. For every non-empty list of acceleration samples the finalized comfort
  score equals \<open>max 0 (100 - 10 * variance)\<close>; for the empty list finalization leaves
  the comfort score as it was (0 for a fresh evaluator). The finalized score of a fresh
  evaluator is never negative, for any list of samples. For any two non-empty sample
  lists, the one with the larger variance yields a score less than or equal to the
  other's.
\<close>

theorem comfort_score_of_variance:
  "(acceleration_history ev \<noteq> [] \<longrightarrow>
      (\<exists>v. np_var (acceleration_history ev) = Some v \<and>
           comfort_score (metrics (finalize_metrics es t ev)) = max 0 (100 - 10 * v))) \<and>
   (acceleration_history ev = [] \<longrightarrow>
      comfort_score (metrics (finalize_metrics es t ev)) = comfort_score (metrics ev)) \<and>
   0 \<le> comfort_score (metrics (finalize_metrics es t (new_evaluator\<lparr>acceleration_history := xs\<rparr>))) \<and>
   (np_var (acceleration_history ev1) = Some v1 \<and> np_var (acceleration_history ev2) = Some v2 \<and>
    v1 \<le> v2 \<longrightarrow>
      comfort_score (metrics (finalize_metrics es2 t2 ev2)) \<le>
      comfort_score (metrics (finalize_metrics es1 t1 ev1)))"
proof (intro conjI impI)
  assume "acceleration_history ev \<noteq> []"
  then obtain v where "np_var (acceleration_history ev) = Some v"
    using np_var_defined by blast
  then show "\<exists>v. np_var (acceleration_history ev) = Some v \<and>
           comfort_score (metrics (finalize_metrics es t ev)) = max 0 (100 - 10 * v)"
    using comfort_finalize by blast
next
  assume "acceleration_history ev = []"
  then show "comfort_score (metrics (finalize_metrics es t ev)) = comfort_score (metrics ev)"
    by (rule comfort_finalize_empty)
next
  show "0 \<le> comfort_score (metrics (finalize_metrics es t (new_evaluator\<lparr>acceleration_history := xs\<rparr>)))"
  proof (cases "xs = []")
    case True
    then show ?thesis
      by (simp add: comfort_finalize_empty new_evaluator_def default_metrics_def)
  next
    case False
    then obtain v where "np_var xs = Some v" using np_var_defined by blast
    then show ?thesis
      using comfort_finalize [of "new_evaluator\<lparr>acceleration_history := xs\<rparr>" v es t] by simp
  qed
next
  assume a: "np_var (acceleration_history ev1) = Some v1 \<and>
    np_var (acceleration_history ev2) = Some v2 \<and> v1 \<le> v2"
  then show "comfort_score (metrics (finalize_metrics es2 t2 ev2)) \<le>
      comfort_score (metrics (finalize_metrics es1 t1 ev1))"
    by (auto simp: comfort_finalize)
qed

theorem comfort_score_of_variance_witness:
  "acceleration_history (new_evaluator\<lparr>acceleration_history := [1, 3]\<rparr>) \<noteq> [] \<and>
   np_var [1, 3] = Some 1 \<and> np_var [0, 4] = Some 4 \<and>
   comfort_score (metrics (finalize_metrics no_events 0
      (new_evaluator\<lparr>acceleration_history := [1, 3]\<rparr>))) = 90 \<and>
   comfort_score (metrics (finalize_metrics no_events 0
      (new_evaluator\<lparr>acceleration_history := [0, 4]\<rparr>))) = 60"
  using comfort_score_of_variance [of "new_evaluator\<lparr>acceleration_history := [1, 3]\<rparr>"
      no_events 0 "[]" "new_evaluator\<lparr>acceleration_history := [1, 3]\<rparr>" 1
      "new_evaluator\<lparr>acceleration_history := [0, 4]\<rparr>" 4 no_events 0 no_events 0]
  by (simp add: np_var_def np_mean_def finalize_metrics_def new_evaluator_def
      default_metrics_def Let_def)

text \<open>
  C3 as stated fails on the empty list of samples: the variance of no samples is not a
  number and the score is not computed from it but keeps its initial value 0, whereas a
  list of two equal samples, of variance 0, scores 100.
\<close>

theorem comfort_score_empty_history:
  "np_var [] = None \<and>
   comfort_score (metrics (finalize_metrics no_events 0
      (new_evaluator\<lparr>acceleration_history := []\<rparr>))) = 0 \<and>
   np_var [1, 1] = Some 0 \<and>
   comfort_score (metrics (finalize_metrics no_events 0
      (new_evaluator\<lparr>acceleration_history := [1, 1]\<rparr>))) = 100"
  by (simp add: np_var_def np_mean_def finalize_metrics_def new_evaluator_def
      default_metrics_def Let_def)

subsection \<open>Finalization on the exit paths\<close>

lemma run_evaluation_calls:
  assumes "run_evaluation cfg ev ep = Some (ev', cs)"
  shows "cs = [Finalize_metrics, Cleanup] \<or> cs = [Cleanup]"
    and "cs = [Cleanup] \<longleftrightarrow>
           \<not> setup_ok ep \<or> \<not> ego_spawned ep \<or>
           (\<exists>ev2. evaluation_loop cfg (runner_destination ep)
                    (ev\<lparr>start_time := start_clock ep, start_location := Some (ego_start ep),
                        last_location := Some (ego_start ep)\<rparr>) (ticks ep) =
                  Raised Other_exception ev2)"
  using assms
  by (auto simp: run_evaluation_def Let_def split: if_splits loop_exit.splits signal.splits)

text \<open>
  C5. The claim asks for one call of \<open>finalize_metrics\<close> before cleanup on every exit,
  an internal exception included. The run below makes one metrics update at speed 2 and
  then the world tick raises an exception other than a keyboard interrupt: the handler
  returns the metrics as they are and only cleanup is called. The speed history holds
  one sample, yet the returned average speed and completion time are still 0.
\<close>

theorem exception_exit_skips_finalization:
  "\<exists>ev. run_evaluation default_config new_evaluator
     (sample_episode None [plain_tick 1 2 (Some Other_exception)]) = Some (ev, [Cleanup]) \<and>
     speed_history ev = [2] \<and> average_speed (metrics ev) = 0 \<and> completion_time (metrics ev) = 0"
  by (simp add: run_evaluation_def sample_episode_def plain_tick_def default_config_def
      new_evaluator_def default_metrics_def check_completion_def update_metrics_def Let_def
      ego_moving_def acceleration_update_def stuck_detection_def)

text \<open>The same run cut short by a keyboard interrupt is finalized before cleanup.\<close>

lemma interrupt_exit_finalizes:
  "\<exists>ev. run_evaluation default_config new_evaluator
     (sample_episode None [plain_tick 1 2 (Some KeyboardInterrupt)]) =
        Some (ev, [Finalize_metrics, Cleanup]) \<and>
     speed_history ev = [2] \<and> average_speed (metrics ev) = 2 \<and> completion_time (metrics ev) = 2"
  by (simp add: run_evaluation_def sample_episode_def plain_tick_def default_config_def
      new_evaluator_def default_metrics_def check_completion_def update_metrics_def Let_def
      ego_moving_def acceleration_update_def stuck_detection_def finalize_metrics_def np_mean_def)

subsection \<open>Runs without a metrics update\<close>

lemma update_metrics_speed_history:
  "speed_history (update_metrics cfg d e t ev) = speed_history ev @ [speed_of (ego_velocity e)]"
  by (simp add: update_metrics_def Let_def split: option.splits)

lemma evaluation_loop_keeps_history:
  "speed_history ev \<noteq> [] \<Longrightarrow> speed_history (exit_state (evaluation_loop cfg d ev ts)) \<noteq> []"
proof (induction ts arbitrary: ev)
  case Nil
  then show ?case by simp
next
  case (Cons t ts)
  have ne: "speed_history (update_metrics cfg d (ego_at_update t) (clock t - start_time ev) ev) \<noteq> []"
    by (simp add: update_metrics_speed_history)
  from Cons.IH [OF ne] ne Cons.prems show ?case
    by (simp add: Let_def split: option.splits)
qed

lemma evaluation_loop_no_update:
  assumes "speed_history (exit_state (evaluation_loop cfg d ev ts)) = []"
  shows "min_speed (metrics (exit_state (evaluation_loop cfg d ev ts))) = min_speed (metrics ev) \<and>
         average_speed (metrics (exit_state (evaluation_loop cfg d ev ts))) = average_speed (metrics ev) \<and>
         distance_traveled (metrics (exit_state (evaluation_loop cfg d ev ts))) =
           distance_traveled (metrics ev)"
proof (cases ts)
  case Nil
  then show ?thesis by simp
next
  case (Cons t ts')
  let ?ev' = "update_metrics cfg d (ego_at_update t) (clock t - start_time ev) ev"
  have ne: "speed_history ?ev' \<noteq> []" by (simp add: update_metrics_speed_history)
  have later: "speed_history (exit_state (evaluation_loop cfg d ?ev' ts')) \<noteq> []"
    using evaluation_loop_keeps_history [OF ne] .
  from assms Cons ne later show ?thesis
    by (simp add: Let_def split: option.splits if_splits)
qed

lemma finalize_metrics_untouched:
  "speed_history (finalize_metrics es t ev) = speed_history ev"
  "min_speed (metrics (finalize_metrics es t ev)) = min_speed (metrics ev)"
  "distance_traveled (metrics (finalize_metrics es t ev)) = distance_traveled (metrics ev)"
  "speed_history ev = [] \<Longrightarrow>
     average_speed (metrics (finalize_metrics es t ev)) = average_speed (metrics ev)"
  by (simp_all add: finalize_metrics_def Let_def split: option.splits)

text \<open>
  C10. Every call of \<open>update_metrics\<close> appends to the speed history, so a run that
  returns with an empty speed history has made no metrics update. The metrics that such
  a run of a fresh evaluator returns, finalized or not, have \<open>min_speed\<close> at positive
  infinity, \<open>average_speed\<close> 0 and \<open>distance_traveled\<close> 0.
\<close>

theorem no_update_before_exit:
  assumes "run_evaluation cfg new_evaluator ep = Some (ev, calls_made)"
    and "speed_history ev = []"
  shows "min_speed (metrics ev) = PInf \<and> average_speed (metrics ev) = 0 \<and>
         distance_traveled (metrics ev) = 0"
proof (cases "setup_ok ep \<and> ego_spawned ep")
  case False
  with assms(1) show ?thesis
    by (auto simp: run_evaluation_def new_evaluator_def default_metrics_def split: if_splits)
next
  case True
  let ?ev1 = "new_evaluator\<lparr>start_time := start_clock ep,
                      start_location := Some (ego_start ep),
                      last_location := Some (ego_start ep)\<rparr>"
  let ?x = "evaluation_loop cfg (runner_destination ep) ?ev1 (ticks ep)"
  have init: "min_speed (metrics ?ev1) = PInf" "average_speed (metrics ?ev1) = 0"
    "distance_traveled (metrics ?ev1) = 0"
    by (simp_all add: new_evaluator_def default_metrics_def)
  have hist: "speed_history (exit_state ?x) = [] \<and>
     min_speed (metrics ev) = min_speed (metrics (exit_state ?x)) \<and>
     average_speed (metrics ev) = average_speed (metrics (exit_state ?x)) \<and>
     distance_traveled (metrics ev) = distance_traveled (metrics (exit_state ?x))"
    using assms True
    by (auto simp: run_evaluation_def Let_def finalize_metrics_untouched
             split: loop_exit.splits signal.splits)
  with evaluation_loop_no_update [of cfg "runner_destination ep" ?ev1 "ticks ep"] init
  show ?thesis by simp
qed

text \<open>
  An instance: the ego vehicle starts 3 units from the destination, completion is
  detected in the first iteration and the run is finalized without any update.
\<close>

theorem no_update_before_exit_witness:
  "run_evaluation default_config new_evaluator
     (sample_episode (Some (at_x 3)) [plain_tick 1 2 None]) =
     Some (finalize_metrics no_events 2
             (new_evaluator\<lparr>start_time := 0, start_location := Some (at_x 0),
                last_location := Some (at_x 0),
                metrics := default_metrics\<lparr>completed := True\<rparr>\<rparr>),
           [Finalize_metrics, Cleanup]) \<and>
   speed_history (finalize_metrics no_events 2
             (new_evaluator\<lparr>start_time := 0, start_location := Some (at_x 0),
                last_location := Some (at_x 0),
                metrics := default_metrics\<lparr>completed := True\<rparr>\<rparr>)) = [] \<and>
   min_speed (metrics (finalize_metrics no_events 2
             (new_evaluator\<lparr>start_time := 0, start_location := Some (at_x 0),
                last_location := Some (at_x 0),
                metrics := default_metrics\<lparr>completed := True\<rparr>\<rparr>))) = PInf"
proof -
  have run: "run_evaluation default_config new_evaluator
     (sample_episode (Some (at_x 3)) [plain_tick 1 2 None]) =
     Some (finalize_metrics no_events 2
             (new_evaluator\<lparr>start_time := 0, start_location := Some (at_x 0),
                last_location := Some (at_x 0),
                metrics := default_metrics\<lparr>completed := True\<rparr>\<rparr>),
           [Finalize_metrics, Cleanup])"
    by (simp add: run_evaluation_def sample_episode_def plain_tick_def default_config_def
        check_completion_def new_evaluator_def default_metrics_def Let_def)
  have hist: "speed_history (finalize_metrics no_events 2
             (new_evaluator\<lparr>start_time := 0, start_location := Some (at_x 0),
                last_location := Some (at_x 0),
                metrics := default_metrics\<lparr>completed := True\<rparr>\<rparr>)) = []"
    by (simp add: finalize_metrics_untouched new_evaluator_def)
  from no_update_before_exit [OF run hist] run hist show ?thesis by simp
qed

end
